theory Spec2Isabelle
  imports Complex_Main
begin

section \<open>Data model (src/types/index.ts, GeoJSON)\<close>

text \<open>
  \<^verbatim>\<open>FeatureType = 'polygon' | 'rectangle' | 'circle' | 'linestring'\<close>.
\<close>

datatype FeatureType = TPolygon | TRectangle | TCircle | TLinestring

text \<open>
  A GeoJSON position is an array of numbers (\<open>[lng, lat]\<close>); numbers are modelled as
  reals, so rounding and NaN are outside the model. Of \<^verbatim>\<open>GeoJSON.Geometry\<close> the
  variants the program builds or inspects are kept.
\<close>

type_synonym position = "real list"
type_synonym ring = "position list"

datatype geometry =
    Point position
  | LineString "position list"
  | Polygon "ring list"
  | MultiPolygon "ring list list"

record Feature =
  fid :: string
  ftype :: FeatureType
  fgeometry :: geometry
  pname :: "string option"
  pcolor :: "string option"

record LatLng =
  lat :: real
  lng :: real

text \<open>A value thrown by a library call.\<close>

datatype exn = Error string | TypeError string

section \<open>The geometry libraries, as parameters\<close>

text \<open>
  Turf and Leaflet are third-party packages; their calls are parameters of the model.
  A Turf \<^verbatim>\<open>Feature<Polygon>\<close> is represented by its \<open>geometry\<close> (its properties are
  never read), \<^verbatim>\<open>null\<close> by \<open>None\<close>, and a throwing call by \<open>Inl\<close>.
  \<open>turf_circle c r\<close> stands for
  \<^verbatim>\<open>turf.circle(c, r, { steps: 64, units: 'kilometers' })\<close> and \<open>distanceTo\<close> for
  Leaflet's \<^verbatim>\<open>LatLng.distanceTo\<close>.
\<close>

record libs =
  turf_polygon :: "ring list \<Rightarrow> exn + geometry"
  turf_intersect :: "geometry \<Rightarrow> geometry \<Rightarrow> exn + geometry option"
  turf_booleanContains :: "geometry \<Rightarrow> geometry \<Rightarrow> exn + bool"
  turf_difference :: "geometry \<Rightarrow> geometry \<Rightarrow> exn + geometry option"
  turf_area :: "geometry \<Rightarrow> exn + real"
  turf_circle :: "position \<Rightarrow> real \<Rightarrow> exn + geometry"
  distanceTo :: "LatLng \<Rightarrow> LatLng \<Rightarrow> real"

section \<open>src/utils/polygonUtils.ts\<close>

fun isPolygonType :: "FeatureType \<Rightarrow> bool" where
  "isPolygonType t = (t = TPolygon \<or> t = TRectangle \<or> t = TCircle)"

text \<open>
  \<^verbatim>\<open>geometryToPolygon\<close>: \<open>Inr None\<close> is the returned \<^verbatim>\<open>null\<close>; an exception of
  \<^verbatim>\<open>turf.polygon\<close> is not caught here.
\<close>

fun geometryToPolygon :: "libs \<Rightarrow> geometry \<Rightarrow> exn + geometry option" where
  "geometryToPolygon lib (Polygon coordinates) =
     (case turf_polygon lib coordinates of
        Inl ex \<Rightarrow> Inl ex
      | Inr p \<Rightarrow> Inr (Some p))"
| "geometryToPolygon lib _ = Inr None"

text \<open>
  \<^verbatim>\<open>doPolygonsOverlap\<close>: both conversions run before the \<^verbatim>\<open>try\<close>; only
  \<^verbatim>\<open>turf.intersect\<close> is inside it.
\<close>

definition doPolygonsOverlap :: "libs \<Rightarrow> geometry \<Rightarrow> geometry \<Rightarrow> exn + bool" where
  "doPolygonsOverlap lib geom1 geom2 =
     (case geometryToPolygon lib geom1 of
        Inl ex \<Rightarrow> Inl ex
      | Inr poly1 \<Rightarrow>
          (case geometryToPolygon lib geom2 of
             Inl ex \<Rightarrow> Inl ex
           | Inr poly2 \<Rightarrow>
               (case (poly1, poly2) of
                  (Some p1, Some p2) \<Rightarrow>
                    (case turf_intersect lib p1 p2 of
                       Inl _ \<Rightarrow> Inr False
                     | Inr r \<Rightarrow> Inr (r \<noteq> None))
                | _ \<Rightarrow> Inr False)))"

definition doesPolygonEnclose :: "libs \<Rightarrow> geometry \<Rightarrow> geometry \<Rightarrow> exn + bool" where
  "doesPolygonEnclose lib geom1 geom2 =
     (case geometryToPolygon lib geom1 of
        Inl ex \<Rightarrow> Inl ex
      | Inr poly1 \<Rightarrow>
          (case geometryToPolygon lib geom2 of
             Inl ex \<Rightarrow> Inl ex
           | Inr poly2 \<Rightarrow>
               (case (poly1, poly2) of
                  (Some p1, Some p2) \<Rightarrow>
                    (case turf_booleanContains lib p1 p2 of
                       Inl _ \<Rightarrow> Inr False
                     | Inr b \<Rightarrow> Inr b)
                | _ \<Rightarrow> Inr False)))"

text \<open>
  \<^verbatim>\<open>multiPoly.geometry.coordinates.map((coords) => turf.polygon(coords))\<close>: the first
  throwing call ends the map.
\<close>

fun mapPolygon :: "libs \<Rightarrow> ring list list \<Rightarrow> exn + geometry list" where
  "mapPolygon lib [] = Inr []"
| "mapPolygon lib (coords # rest) =
     (case turf_polygon lib coords of
        Inl ex \<Rightarrow> Inl ex
      | Inr p \<Rightarrow>
          (case mapPolygon lib rest of
             Inl ex \<Rightarrow> Inl ex
           | Inr ps \<Rightarrow> Inr (p # ps)))"

text \<open>
  The callback of \<^verbatim>\<open>polygons.reduce\<close>:
  \<^verbatim>\<open>(max, poly) => turf.area(poly) > turf.area(max) ? poly : max\<close>.
\<close>

definition largerOf :: "libs \<Rightarrow> geometry \<Rightarrow> geometry \<Rightarrow> exn + geometry" where
  "largerOf lib mx poly =
     (case turf_area lib mx of
        Inl ex \<Rightarrow> Inl ex
      | Inr maxArea \<Rightarrow>
          (case turf_area lib poly of
             Inl ex \<Rightarrow> Inl ex
           | Inr polyArea \<Rightarrow> Inr (if polyArea > maxArea then poly else mx)))"

fun reduceFrom :: "libs \<Rightarrow> geometry \<Rightarrow> geometry list \<Rightarrow> exn + geometry" where
  "reduceFrom lib mx [] = Inr mx"
| "reduceFrom lib mx (poly # rest) =
     (case largerOf lib mx poly of
        Inl ex \<Rightarrow> Inl ex
      | Inr m \<Rightarrow> reduceFrom lib m rest)"

text \<open>
  \<^verbatim>\<open>Array.prototype.reduce\<close> without an initial value starts from the first element and
  throws a TypeError on an empty array.
\<close>

fun largest :: "libs \<Rightarrow> geometry list \<Rightarrow> exn + geometry" where
  "largest lib [] = Inl (TypeError ''Reduce of empty array with no initial value'')"
| "largest lib (p # ps) = reduceFrom lib p ps"

text \<open>
  The \<^verbatim>\<open>for\<close> loop of \<^verbatim>\<open>trimPolygonOverlap\<close>. \<open>Inr None\<close> is the
  \<^verbatim>\<open>return null\<close> inside the loop, \<open>Inr (Some p)\<close> the value of \<^verbatim>\<open>currentPoly\<close> when the
  loop ends, \<open>Inl\<close> an exception thrown inside the \<^verbatim>\<open>try\<close>.
\<close>

fun trimLoop :: "libs \<Rightarrow> geometry \<Rightarrow> geometry list \<Rightarrow> exn + geometry option" where
  "trimLoop lib currentPoly [] = Inr (Some currentPoly)"
| "trimLoop lib currentPoly (existingGeom # rest) =
     (case geometryToPolygon lib existingGeom of
        Inl ex \<Rightarrow> Inl ex
      | Inr None \<Rightarrow> trimLoop lib currentPoly rest
      | Inr (Some existingPoly) \<Rightarrow>
          (case turf_intersect lib currentPoly existingPoly of
             Inl ex \<Rightarrow> Inl ex
           | Inr None \<Rightarrow> trimLoop lib currentPoly rest
           | Inr (Some _) \<Rightarrow>
               (case turf_difference lib currentPoly existingPoly of
                  Inl ex \<Rightarrow> Inl ex
                | Inr (Some (Polygon cs)) \<Rightarrow> trimLoop lib (Polygon cs) rest
                | Inr (Some (MultiPolygon css)) \<Rightarrow>
                    (case mapPolygon lib css of
                       Inl ex \<Rightarrow> Inl ex
                     | Inr polygons \<Rightarrow>
                         (case largest lib polygons of
                            Inl ex \<Rightarrow> Inl ex
                          | Inr l \<Rightarrow> trimLoop lib l rest))
                | Inr _ \<Rightarrow> Inr None)))"

text \<open>The body of the \<^verbatim>\<open>try\<close>: the loop, then the area check.\<close>

definition trimBody :: "libs \<Rightarrow> geometry \<Rightarrow> geometry list \<Rightarrow> exn + geometry option" where
  "trimBody lib currentPoly existingGeometries =
     (case trimLoop lib currentPoly existingGeometries of
        Inl ex \<Rightarrow> Inl ex
      | Inr None \<Rightarrow> Inr None
      | Inr (Some p) \<Rightarrow>
          (case turf_area lib p of
             Inl ex \<Rightarrow> Inl ex
           | Inr area \<Rightarrow> if area < 0.0001 then Inr None else Inr (Some p)))"

text \<open>
  \<^verbatim>\<open>trimPolygonOverlap\<close>: the candidate is converted before the \<^verbatim>\<open>try\<close>; the
  \<^verbatim>\<open>catch\<close> turns every exception of the body into \<^verbatim>\<open>null\<close>.
\<close>

definition trimPolygonOverlap :: "libs \<Rightarrow> geometry \<Rightarrow> geometry list \<Rightarrow> exn + geometry option" where
  "trimPolygonOverlap lib newGeometry existingGeometries =
     (case geometryToPolygon lib newGeometry of
        Inl ex \<Rightarrow> Inl ex
      | Inr None \<Rightarrow> Inr None
      | Inr (Some currentPoly) \<Rightarrow>
          (case trimBody lib currentPoly existingGeometries of
             Inl _ \<Rightarrow> Inr None
           | Inr r \<Rightarrow> Inr r))"

fun getFeatureColor :: "FeatureType \<Rightarrow> string" where
  "getFeatureColor TPolygon = ''#3b82f6''"
| "getFeatureColor TRectangle = ''#10b981''"
| "getFeatureColor TCircle = ''#f59e0b''"
| "getFeatureColor TLinestring = ''#ef4444''"

section \<open>The store (src/store/mapStore.ts) and the refs of the drawing hook\<close>

text \<open>
  The Leaflet preview layers. A rectangle is kept as its bounds, a circle as centre and
  radius, a polygon or polyline as its list of points. In Leaflet \<^verbatim>\<open>L.Rectangle\<close>
  extends \<^verbatim>\<open>L.Polygon\<close>, which extends \<^verbatim>\<open>L.Polyline\<close>; the \<^verbatim>\<open>instanceof\<close>
  tests below follow that.
\<close>

record Bounds =
  south :: real
  west :: real
  north :: real
  east :: real

datatype Layer =
    L_Circle LatLng real
  | L_Rectangle Bounds
  | L_Polygon "LatLng list"
  | L_Polyline "LatLng list"

fun instanceof_Polygon :: "Layer \<Rightarrow> bool" where
  "instanceof_Polygon (L_Polygon _) = True"
| "instanceof_Polygon (L_Rectangle _) = True"
| "instanceof_Polygon _ = False"

fun instanceof_Polyline :: "Layer \<Rightarrow> bool" where
  "instanceof_Polyline (L_Circle _ _) = False"
| "instanceof_Polyline _ = True"

definition latLngBounds :: "LatLng \<Rightarrow> LatLng \<Rightarrow> Bounds" where
  "latLngBounds a b =
     \<lparr>south = min (lat a) (lat b), west = min (lng a) (lng b),
      north = max (lat a) (lat b), east = max (lng a) (lng b)\<rparr>"

definition extendBounds :: "LatLng \<Rightarrow> Bounds \<Rightarrow> Bounds" where
  "extendBounds p b =
     \<lparr>south = min (south b) (lat p), west = min (west b) (lng p),
      north = max (north b) (lat p), east = max (east b) (lng p)\<rparr>"

text \<open>
  \<^verbatim>\<open>layer.setLatLngs\<close> with the points \<open>pts @ [p]\<close> (every call site passes a list that
  ends in a fresh point); on a rectangle Leaflet recomputes the bounds from the points.
\<close>

fun setLatLngs :: "LatLng list \<Rightarrow> LatLng \<Rightarrow> Layer \<Rightarrow> Layer" where
  "setLatLngs pts p (L_Polygon _) = L_Polygon (pts @ [p])"
| "setLatLngs pts p (L_Polyline _) = L_Polyline (pts @ [p])"
| "setLatLngs pts p (L_Rectangle _) = L_Rectangle (fold extendBounds pts (latLngBounds p p))"
| "setLatLngs pts p (L_Circle c r) = L_Circle c r"

text \<open>
  The store (\<open>features\<close>, \<open>mode\<close> and \<open>isDrawing\<close> of \<^verbatim>\<open>drawingState\<close>, \<open>maxShapes\<close>)
  together with the three refs of \<^verbatim>\<open>useDrawing\<close>. The maxima are integers. The
  Leaflet layer group that shows the previews is rendering state and is not part of the
  model.
\<close>

record App =
  features :: "Feature list"
  mode :: "FeatureType option"
  isDrawing :: bool
  maxShapes :: "FeatureType \<Rightarrow> int"
  currentShapeRef :: "Layer option"
  startPointRef :: "LatLng option"
  polygonPointsRef :: "LatLng list"

fun MAX_SHAPES_CONFIG :: "FeatureType \<Rightarrow> int" where
  "MAX_SHAPES_CONFIG TPolygon = 10"
| "MAX_SHAPES_CONFIG TRectangle = 5"
| "MAX_SHAPES_CONFIG TCircle = 5"
| "MAX_SHAPES_CONFIG TLinestring = 20"

definition initialApp :: App where
  "initialApp =
     \<lparr>features = [], mode = None, isDrawing = False, maxShapes = MAX_SHAPES_CONFIG,
      currentShapeRef = None, startPointRef = None, polygonPointsRef = []\<rparr>"

definition setMaxShapes :: "FeatureType \<Rightarrow> int \<Rightarrow> App \<Rightarrow> App" where
  "setMaxShapes t mx s = s\<lparr>maxShapes := (maxShapes s)(t := mx)\<rparr>"

definition addFeature :: "Feature \<Rightarrow> App \<Rightarrow> App" where
  "addFeature f s = s\<lparr>features := features s @ [f]\<rparr>"

definition removeFeature :: "string \<Rightarrow> App \<Rightarrow> App" where
  "removeFeature i s = s\<lparr>features := filter (\<lambda>f. fid f \<noteq> i) (features s)\<rparr>"

definition setDrawingMode :: "FeatureType option \<Rightarrow> App \<Rightarrow> App" where
  "setDrawingMode m s = s\<lparr>mode := m\<rparr>"

definition setIsDrawing :: "bool \<Rightarrow> App \<Rightarrow> App" where
  "setIsDrawing b s = s\<lparr>isDrawing := b\<rparr>"

definition clearAllFeatures :: "App \<Rightarrow> App" where
  "clearAllFeatures s = s\<lparr>features := [], mode := None, isDrawing := False\<rparr>"

section \<open>src/hooks/useDrawing.ts\<close>

text \<open>The messages passed to \<^verbatim>\<open>alert\<close>, one constructor per message.\<close>

datatype Alert =
    MaxCircles int
  | MaxRectangles int
  | MaxPolygons int
  | MaxLineStrings int
  | PolygonNeeds3Points
  | LineStringNeeds2Points
  | WouldBeEnclosed
  | WouldEnclose
  | InvalidTrim

definition toCoord :: "LatLng \<Rightarrow> position" where
  "toCoord ll = [lng ll, lat ll]"

text \<open>
  The first part of \<^verbatim>\<open>finishDrawing\<close>: the geometry of the layer. \<open>Inr (Inl a)\<close> is
  an \<^verbatim>\<open>alert\<close> followed by \<^verbatim>\<open>return\<close>. The hook creates layers of these four kinds
  only, so \<^verbatim>\<open>geometry\<close> is never \<^verbatim>\<open>null\<close> after the chain of \<^verbatim>\<open>instanceof\<close> tests.
\<close>

fun layerGeometry :: "libs \<Rightarrow> LatLng list \<Rightarrow> Layer \<Rightarrow> exn + (Alert + geometry)" where
  "layerGeometry lib pts (L_Circle center radius) =
     (case turf_circle lib [lng center, lat center] (radius / 1000) of
        Inl ex \<Rightarrow> Inl ex
      | Inr circlePolygon \<Rightarrow> Inr (Inr circlePolygon))"
| "layerGeometry lib pts (L_Rectangle b) =
     Inr (Inr (Polygon
       [[[west b, south b], [east b, south b], [east b, north b], [west b, north b],
         [west b, south b]]]))"
| "layerGeometry lib pts (L_Polygon _) =
     (if length pts < 3 then Inr (Inl PolygonNeeds3Points)
      else Inr (Inr (Polygon [map toCoord pts @ [hd (map toCoord pts)]])))"
| "layerGeometry lib pts (L_Polyline _) =
     (if length pts < 2 then Inr (Inl LineStringNeeds2Points)
      else Inr (Inr (LineString (map toCoord pts))))"

text \<open>The loop "Check for full enclosure".\<close>

fun enclosureCheck :: "libs \<Rightarrow> geometry \<Rightarrow> geometry list \<Rightarrow> exn + Alert option" where
  "enclosureCheck lib g [] = Inr None"
| "enclosureCheck lib g (existingGeom # rest) =
     (case doesPolygonEnclose lib existingGeom g of
        Inl ex \<Rightarrow> Inl ex
      | Inr True \<Rightarrow> Inr (Some WouldBeEnclosed)
      | Inr False \<Rightarrow>
          (case doesPolygonEnclose lib g existingGeom of
             Inl ex \<Rightarrow> Inl ex
           | Inr True \<Rightarrow> Inr (Some WouldEnclose)
           | Inr False \<Rightarrow> enclosureCheck lib g rest))"

text \<open>The loop that sets \<^verbatim>\<open>hasOverlap\<close>.\<close>

fun hasOverlap :: "libs \<Rightarrow> geometry \<Rightarrow> geometry list \<Rightarrow> exn + bool" where
  "hasOverlap lib g [] = Inr False"
| "hasOverlap lib g (existingGeom # rest) =
     (case doPolygonsOverlap lib g existingGeom of
        Inl ex \<Rightarrow> Inl ex
      | Inr True \<Rightarrow> Inr True
      | Inr False \<Rightarrow> hasOverlap lib g rest)"

definition existingPolygonGeometries :: "Feature list \<Rightarrow> geometry list" where
  "existingPolygonGeometries fs = map fgeometry (filter (\<lambda>f. isPolygonType (ftype f)) fs)"

text \<open>
  "Handle polygon overlap constraints": the enclosure loop, the overlap loop, the trim.
  \<open>Inr (Inl a)\<close> is a rejection, \<open>Inr (Inr g)\<close> the geometry to commit.
\<close>

definition overlapConstraints ::
  "libs \<Rightarrow> FeatureType \<Rightarrow> geometry \<Rightarrow> Feature list \<Rightarrow> exn + (Alert + geometry)" where
  "overlapConstraints lib type g currentFeatures =
     (if isPolygonType type then
        (case enclosureCheck lib g (existingPolygonGeometries currentFeatures) of
           Inl ex \<Rightarrow> Inl ex
         | Inr (Some a) \<Rightarrow> Inr (Inl a)
         | Inr None \<Rightarrow>
             (case hasOverlap lib g (existingPolygonGeometries currentFeatures) of
                Inl ex \<Rightarrow> Inl ex
              | Inr False \<Rightarrow> Inr (Inr g)
              | Inr True \<Rightarrow>
                  (case trimPolygonOverlap lib g (existingPolygonGeometries currentFeatures) of
                     Inl ex \<Rightarrow> Inl ex
                   | Inr None \<Rightarrow> Inr (Inl InvalidTrim)
                   | Inr (Some trimmedGeometry) \<Rightarrow> Inr (Inr trimmedGeometry))))
      else Inr (Inr g))"

definition newFeature :: "string \<Rightarrow> FeatureType \<Rightarrow> geometry \<Rightarrow> Feature" where
  "newFeature i type g =
     \<lparr>fid = i, ftype = type, fgeometry = g, pname = None, pcolor = Some (getFeatureColor type)\<rparr>"

text \<open>
  \<^verbatim>\<open>finishDrawing\<close>. \<open>newId\<close> is the value \<^verbatim>\<open>generateFeatureId()\<close> returns (it reads
  the clock and a random number). The result is \<open>Inl\<close> when an exception leaves the
  function (nothing has been written by then), otherwise the alert shown, if any, and the
  state.
\<close>

definition finishDrawing ::
  "libs \<Rightarrow> string \<Rightarrow> FeatureType \<Rightarrow> Layer \<Rightarrow> App \<Rightarrow> exn + (Alert option \<times> App)" where
  "finishDrawing lib newId type layer s =
     (case layerGeometry lib (polygonPointsRef s) layer of
        Inl ex \<Rightarrow> Inl ex
      | Inr (Inl a) \<Rightarrow> Inr (Some a, s)
      | Inr (Inr g) \<Rightarrow>
          (case overlapConstraints lib type g (features s) of
             Inl ex \<Rightarrow> Inl ex
           | Inr (Inl a) \<Rightarrow> Inr (Some a, s)
           | Inr (Inr g') \<Rightarrow>
               Inr (None, (addFeature (newFeature newId type g') s)
                      \<lparr>currentShapeRef := None, polygonPointsRef := []\<rparr>)))"

definition countType :: "FeatureType \<Rightarrow> Feature list \<Rightarrow> int" where
  "countType t fs = int (length (filter (\<lambda>f. ftype f = t) fs))"

definition polygonCount :: "Feature list \<Rightarrow> int" where
  "polygonCount fs = int (length (filter (\<lambda>f. isPolygonType (ftype f)) fs))"

definition finishThen ::
  "exn + (Alert option \<times> App) \<Rightarrow> exn + (Alert option \<times> App)" where
  "finishThen r = (case r of Inl ex \<Rightarrow> Inl ex | Inr (a, s') \<Rightarrow> Inr (a, setIsDrawing False s'))"

definition handleCircleClick ::
  "libs \<Rightarrow> string \<Rightarrow> LatLng \<Rightarrow> bool \<Rightarrow> App \<Rightarrow> exn + (Alert option \<times> App)" where
  "handleCircleClick lib newId latlng drawing s =
     (if drawing then
        (case currentShapeRef s of
           Some (L_Circle c r) \<Rightarrow> finishThen (finishDrawing lib newId TCircle (L_Circle c r) s)
         | _ \<Rightarrow> Inr (None, setIsDrawing False s))
      else if countType TCircle (features s) \<ge> maxShapes s TCircle then
        Inr (Some (MaxCircles (maxShapes s TCircle)), s)
      else
        Inr (None, (setIsDrawing True (s\<lparr>startPointRef := Some latlng\<rparr>))
               \<lparr>currentShapeRef := Some (L_Circle latlng 0)\<rparr>))"

definition handleRectangleClick ::
  "libs \<Rightarrow> string \<Rightarrow> LatLng \<Rightarrow> bool \<Rightarrow> App \<Rightarrow> exn + (Alert option \<times> App)" where
  "handleRectangleClick lib newId latlng drawing s =
     (if drawing then
        (case currentShapeRef s of
           Some (L_Rectangle b) \<Rightarrow>
             finishThen (finishDrawing lib newId TRectangle (L_Rectangle b) s)
         | _ \<Rightarrow> Inr (None, setIsDrawing False s))
      else if countType TRectangle (features s) \<ge> maxShapes s TRectangle then
        Inr (Some (MaxRectangles (maxShapes s TRectangle)), s)
      else
        Inr (None, (setIsDrawing True (s\<lparr>startPointRef := Some latlng\<rparr>))
               \<lparr>currentShapeRef := Some (L_Rectangle (latLngBounds latlng latlng))\<rparr>))"

definition handlePolygonClick :: "LatLng \<Rightarrow> bool \<Rightarrow> App \<Rightarrow> Alert option \<times> App" where
  "handlePolygonClick latlng drawing s =
     (if \<not> drawing then
        (if polygonCount (features s) \<ge> maxShapes s TPolygon then
           (Some (MaxPolygons (maxShapes s TPolygon)), s)
         else
           (None, (setIsDrawing True (s\<lparr>polygonPointsRef := [latlng]\<rparr>))
              \<lparr>currentShapeRef := Some (L_Polygon [latlng])\<rparr>))
      else
        (None, s\<lparr>polygonPointsRef := polygonPointsRef s @ [latlng],
                 currentShapeRef :=
                   (case currentShapeRef s of
                      None \<Rightarrow> None
                    | Some l \<Rightarrow>
                        if instanceof_Polygon l
                        then Some (setLatLngs (polygonPointsRef s) latlng l) else Some l)\<rparr>))"

definition handleLineStringClick :: "LatLng \<Rightarrow> bool \<Rightarrow> App \<Rightarrow> Alert option \<times> App" where
  "handleLineStringClick latlng drawing s =
     (if \<not> drawing then
        (if countType TLinestring (features s) \<ge> maxShapes s TLinestring then
           (Some (MaxLineStrings (maxShapes s TLinestring)), s)
         else
           (None, (setIsDrawing True (s\<lparr>polygonPointsRef := [latlng]\<rparr>))
              \<lparr>currentShapeRef := Some (L_Polyline [latlng])\<rparr>))
      else
        (None, s\<lparr>polygonPointsRef := polygonPointsRef s @ [latlng],
                 currentShapeRef :=
                   (case currentShapeRef s of
                      None \<Rightarrow> None
                    | Some l \<Rightarrow>
                        if instanceof_Polyline l
                        then Some (setLatLngs (polygonPointsRef s) latlng l) else Some l)\<rparr>))"

text \<open>\<^verbatim>\<open>finishPolygonOrLineString\<close>; its callers pass \<open>TPolygon\<close> or \<open>TLinestring\<close>.\<close>

definition finishPolygonOrLineString ::
  "libs \<Rightarrow> string \<Rightarrow> FeatureType \<Rightarrow> App \<Rightarrow> exn + (Alert option \<times> App)" where
  "finishPolygonOrLineString lib newId type s =
     (case currentShapeRef s of
        None \<Rightarrow> Inr (None, s)
      | Some layer \<Rightarrow>
          if type = TPolygon \<and> length (polygonPointsRef s) < 3 then
            Inr (Some PolygonNeeds3Points, s)
          else if type = TLinestring \<and> length (polygonPointsRef s) < 2 then
            Inr (Some LineStringNeeds2Points, s)
          else finishThen (finishDrawing lib newId type layer s))"

definition handleMapClick ::
  "libs \<Rightarrow> string \<Rightarrow> LatLng \<Rightarrow> App \<Rightarrow> exn + (Alert option \<times> App)" where
  "handleMapClick lib newId latlng s =
     (case mode s of
        None \<Rightarrow> Inr (None, s)
      | Some TCircle \<Rightarrow> handleCircleClick lib newId latlng (isDrawing s) s
      | Some TRectangle \<Rightarrow> handleRectangleClick lib newId latlng (isDrawing s) s
      | Some TPolygon \<Rightarrow> Inr (handlePolygonClick latlng (isDrawing s) s)
      | Some TLinestring \<Rightarrow> Inr (handleLineStringClick latlng (isDrawing s) s))"

definition handleMapDoubleClick ::
  "libs \<Rightarrow> string \<Rightarrow> App \<Rightarrow> exn + (Alert option \<times> App)" where
  "handleMapDoubleClick lib newId s =
     (case mode s of
        Some currentMode \<Rightarrow>
          if (currentMode = TPolygon \<or> currentMode = TLinestring) \<and> isDrawing s
          then finishPolygonOrLineString lib newId currentMode s
          else Inr (None, s)
      | None \<Rightarrow> Inr (None, s))"

definition handleMapMouseMove :: "libs \<Rightarrow> LatLng \<Rightarrow> App \<Rightarrow> App" where
  "handleMapMouseMove lib currentLatlng s =
     (case (mode s, startPointRef s) of
        (Some currentMode, Some start) \<Rightarrow>
          if \<not> isDrawing s then s
          else
            (case (currentMode, currentShapeRef s) of
               (TCircle, Some (L_Circle c r)) \<Rightarrow>
                 s\<lparr>currentShapeRef := Some (L_Circle c (distanceTo lib start currentLatlng))\<rparr>
             | (TRectangle, Some (L_Rectangle b)) \<Rightarrow>
                 s\<lparr>currentShapeRef := Some (L_Rectangle (latLngBounds start currentLatlng))\<rparr>
             | (TPolygon, Some l) \<Rightarrow>
                 if instanceof_Polygon l \<and> length (polygonPointsRef s @ [currentLatlng]) \<ge> 2
                 then s\<lparr>currentShapeRef := Some (setLatLngs (polygonPointsRef s) currentLatlng l)\<rparr>
                 else s
             | (TLinestring, Some l) \<Rightarrow>
                 if instanceof_Polyline l \<and> length (polygonPointsRef s @ [currentLatlng]) \<ge> 1
                 then s\<lparr>currentShapeRef := Some (setLatLngs (polygonPointsRef s) currentLatlng l)\<rparr>
                 else s
             | _ \<Rightarrow> s)
      | _ \<Rightarrow> s)"

text \<open>
  The "Main drawing effect" up to the registration of the handlers, for a map and a
  layer group that exist: it runs when \<^verbatim>\<open>drawingState.mode\<close> has changed (its dependency
  list) and resets the session.
\<close>

definition drawingEffect :: "App \<Rightarrow> App" where
  "drawingEffect s =
     setIsDrawing False
       (s\<lparr>currentShapeRef := None, startPointRef := None, polygonPointsRef := []\<rparr>)"

definition rerender :: "App \<Rightarrow> App \<Rightarrow> App" where
  "rerender old new = (if mode new \<noteq> mode old then drawingEffect new else new)"

text \<open>\<^verbatim>\<open>DrawingToolbar\<close>: a button is disabled at its type's limit.\<close>

definition handleToolClick :: "FeatureType \<Rightarrow> App \<Rightarrow> App" where
  "handleToolClick type s =
     (if mode s = Some type then setDrawingMode None s else setDrawingMode (Some type) s)"

definition toolButton :: "FeatureType \<Rightarrow> App \<Rightarrow> App" where
  "toolButton type s =
     (if countType type (features s) \<ge> maxShapes s type then s
      else rerender s (handleToolClick type s))"

section \<open>Events and reachable states\<close>

datatype Event =
    Click LatLng
  | DblClick
  | MouseMove LatLng
  | ToolButton FeatureType
  | RemoveFeature string
  | ClearAllFeatures
  | SetMaxShapes FeatureType int

fun handle :: "libs \<Rightarrow> string \<Rightarrow> Event \<Rightarrow> App \<Rightarrow> exn + (Alert option \<times> App)" where
  "handle lib newId (Click latlng) s = handleMapClick lib newId latlng s"
| "handle lib newId DblClick s = handleMapDoubleClick lib newId s"
| "handle lib newId (MouseMove latlng) s = Inr (None, handleMapMouseMove lib latlng s)"
| "handle lib newId (ToolButton t) s = Inr (None, toolButton t s)"
| "handle lib newId (RemoveFeature i) s = Inr (None, removeFeature i s)"
| "handle lib newId ClearAllFeatures s = Inr (None, rerender s (clearAllFeatures s))"
| "handle lib newId (SetMaxShapes t mx) s = Inr (None, setMaxShapes t mx s)"

text \<open>
  The states the application reaches from its initial state by events. A handler that
  ends in an exception has written nothing, so it adds no state. \<^verbatim>\<open>addFeature\<close> is
  called by \<^verbatim>\<open>finishDrawing\<close> only.
\<close>

inductive reachable :: "libs \<Rightarrow> App \<Rightarrow> bool" for lib :: libs where
  reachable_init: "reachable lib initialApp"
| reachable_step:
    "reachable lib s \<Longrightarrow> handle lib newId ev s = Inr (a, s') \<Longrightarrow> reachable lib s'"

text \<open>
  The state after a list of events, each paired with the id that
  \<^verbatim>\<open>generateFeatureId\<close> would return; an event whose handler throws changes nothing.
\<close>

fun run :: "libs \<Rightarrow> (string \<times> Event) list \<Rightarrow> App \<Rightarrow> App" where
  "run lib [] s = s"
| "run lib ((newId, ev) # rest) s =
     (case handle lib newId ev s of
        Inl _ \<Rightarrow> run lib rest s
      | Inr (_, s') \<Rightarrow> run lib rest s')"

text \<open>
  The drawing mode under which a preview layer of each kind is created.
\<close>

fun layerType :: "Layer \<Rightarrow> FeatureType" where
  "layerType (L_Circle _ _) = TCircle"
| "layerType (L_Rectangle _) = TRectangle"
| "layerType (L_Polygon _) = TPolygon"
| "layerType (L_Polyline _) = TLinestring"

text \<open>
  A preview layer, when there is one, is of the kind of the selected mode.
\<close>

definition shapeMatchesMode :: "App \<Rightarrow> bool" where
  "shapeMatchesMode s \<longleftrightarrow> (\<forall>l. currentShapeRef s = Some l \<longrightarrow> mode s = Some (layerType l))"

section \<open>Shapes of committed geometry\<close>

text \<open>
  A ring that is closed and has the four positions \<^verbatim>\<open>turf.polygon\<close> asks for: three
  vertices and the closing copy of the first.
\<close>

definition closedRing :: "ring \<Rightarrow> bool" where
  "closedRing r \<longleftrightarrow> 4 \<le> length r \<and> hd r = last r"

fun closedPolygon :: "geometry \<Rightarrow> bool" where
  "closedPolygon (Polygon cs) = list_all closedRing cs"
| "closedPolygon _ = False"

fun lineOfTwo :: "geometry \<Rightarrow> bool" where
  "lineOfTwo (LineString ps) = (2 \<le> length ps)"
| "lineOfTwo _ = False"

text \<open>
  What a committed feature's geometry looks like: a polygon of closed rings for the three
  polygon types, a line string of at least two positions otherwise.
\<close>

definition committedShape :: "Feature \<Rightarrow> bool" where
  "committedShape f =
     (if isPolygonType (ftype f) then closedPolygon (fgeometry f) else lineOfTwo (fgeometry f))"

section \<open>Planar area\<close>

text \<open>
  The planar area of the specification, in the units of the coordinates (square degrees
  for geographic coordinates): half the absolute shoelace sum of the outer ring, less
  that of the holes. The program never computes it; it is here to compare with what
  \<^verbatim>\<open>turf.area\<close> measures.
\<close>

definition crossProduct :: "position \<Rightarrow> position \<Rightarrow> real" where
  "crossProduct p q = p ! 0 * q ! 1 - q ! 0 * p ! 1"

fun shoelace :: "ring \<Rightarrow> real" where
  "shoelace (p # q # rest) = crossProduct p q + shoelace (q # rest)"
| "shoelace _ = 0"

definition ringArea :: "ring \<Rightarrow> real" where
  "ringArea r = \<bar>shoelace r\<bar> / 2"

fun planarArea :: "geometry \<Rightarrow> real" where
  "planarArea (Polygon (outer # holes)) = ringArea outer - sum_list (map ringArea holes)"
| "planarArea _ = 0"

section \<open>What the proofs ask of the library\<close>

text \<open>
  Turf is not part of the repository, so the claims that depend on what its calls compute
  are proved for every library that meets the requirements below. They are stated for a
  region semantics \<open>R\<close>: a function that gives each geometry the set of points of its area
  (for a polygon, its interior). A call may still throw; the requirements speak of the
  values that are returned.
\<close>

text \<open>
  \<^verbatim>\<open>turf.polygon(coords)\<close> returns the polygon with these coordinates.
\<close>

definition polygon_wraps :: "libs \<Rightarrow> bool" where
  "polygon_wraps lib \<longleftrightarrow> (\<forall>cs g. turf_polygon lib cs = Inr g \<longrightarrow> g = Polygon cs)"

text \<open>
  \<^verbatim>\<open>turf.intersect\<close> returns \<^verbatim>\<open>null\<close> exactly when the two regions share no point.
\<close>

definition intersect_exact :: "libs \<Rightarrow> (geometry \<Rightarrow> 'p set) \<Rightarrow> bool" where
  "intersect_exact lib R \<longleftrightarrow>
     (\<forall>a b r. turf_intersect lib a b = Inr r \<longrightarrow> (r = None \<longleftrightarrow> R a \<inter> R b = {}))"

text \<open>
  If \<^verbatim>\<open>turf.intersect\<close> throws for a pair, it throws for the swapped pair too.
\<close>

definition intersect_fails_both :: "libs \<Rightarrow> bool" where
  "intersect_fails_both lib \<longleftrightarrow>
     (\<forall>a b x. turf_intersect lib a b = Inl x \<longrightarrow> (\<exists>y. turf_intersect lib b a = Inl y))"

text \<open>
  Every part of \<^verbatim>\<open>turf.difference(a, b)\<close> lies in the region of \<open>a\<close> and outside the region
  of \<open>b\<close>, and a single-part result is a polygon that \<^verbatim>\<open>turf.polygon\<close> accepts.
\<close>

definition difference_sound :: "libs \<Rightarrow> (geometry \<Rightarrow> 'p set) \<Rightarrow> bool" where
  "difference_sound lib R \<longleftrightarrow>
     (\<forall>a b. (\<forall>cs. turf_difference lib a b = Inr (Some (Polygon cs)) \<longrightarrow>
                R (Polygon cs) \<subseteq> R a - R b \<and> turf_polygon lib cs = Inr (Polygon cs))
          \<and> (\<forall>css. turf_difference lib a b = Inr (Some (MultiPolygon css)) \<longrightarrow>
                (\<forall>cs \<in> set css. R (Polygon cs) \<subseteq> R a - R b)))"


text \<open>
  \<^verbatim>\<open>turf.booleanContains(a, b)\<close> returns whether the region of \<open>b\<close> lies in that of \<open>a\<close>.
\<close>

definition contains_exact :: "libs \<Rightarrow> (geometry \<Rightarrow> 'p set) \<Rightarrow> bool" where
  "contains_exact lib R \<longleftrightarrow> (\<forall>a b. turf_booleanContains lib a b = Inr (R b \<subseteq> R a))"

text \<open>
  The results of \<^verbatim>\<open>turf.polygon\<close>, of a single-part \<^verbatim>\<open>turf.difference\<close> and of
  \<^verbatim>\<open>turf.circle\<close> are polygons of closed rings.
\<close>

definition outputs_closed :: "libs \<Rightarrow> bool" where
  "outputs_closed lib \<longleftrightarrow>
     (\<forall>cs g. turf_polygon lib cs = Inr g \<longrightarrow> closedPolygon g)
   \<and> (\<forall>a b cs. turf_difference lib a b = Inr (Some (Polygon cs)) \<longrightarrow> closedPolygon (Polygon cs))
   \<and> (\<forall>c r g. turf_circle lib c r = Inr g \<longrightarrow> closedPolygon g)"

section \<open>An exact library of axis-parallel boxes\<close>

text \<open>
  A library that meets every requirement above, used to evaluate the program on concrete
  inputs. It computes exactly on polygons whose single ring is an axis-parallel rectangle
  \<open>[[w, s], [e, s], [e, n], [w, n], [w, s]]\<close>, which is what the rectangle tool commits; every
  other geometry has the empty region. Its polygon constructor checks rings as
  \<^verbatim>\<open>turf.polygon\<close> does: a ring of fewer than four positions, or one whose last position
  differs from its first, makes it throw. The difference of two boxes is returned as the
  strips left, right, below and above the intersection.
\<close>

type_synonym box = "real \<times> real \<times> real \<times> real"

definition boxRing :: "box \<Rightarrow> ring" where
  "boxRing b = (case b of (w, s, e, n) \<Rightarrow> [[w, s], [e, s], [e, n], [w, n], [w, s]])"

definition boxOf :: "geometry \<Rightarrow> box option" where
  "boxOf g =
     (case g of
        Polygon rs \<Rightarrow>
          (if length rs = 1 \<and> length (hd rs) = 5 \<and> length (hd (hd rs)) = 2
                \<and> length (hd rs ! 2) = 2
           then
             (let b = (hd rs ! 0 ! 0, hd rs ! 0 ! 1, hd rs ! 2 ! 0, hd rs ! 2 ! 1)
              in if rs = [boxRing b] then Some b else None)
           else None)
      | _ \<Rightarrow> None)"

fun box_nonempty :: "box \<Rightarrow> bool" where
  "box_nonempty (w, s, e, n) = (w < e \<and> s < n)"

fun box_inter :: "box \<Rightarrow> box \<Rightarrow> box" where
  "box_inter (w1, s1, e1, n1) (w2, s2, e2, n2) = (max w1 w2, max s1 s2, min e1 e2, min n1 n2)"

fun box_points :: "box \<Rightarrow> (real \<times> real) set" where
  "box_points (w, s, e, n) = {w<..<e} \<times> {s<..<n}"

definition region :: "geometry \<Rightarrow> (real \<times> real) set" where
  "region g = (case boxOf g of Some b \<Rightarrow> box_points b | None \<Rightarrow> {})"

fun ringError :: "ring list \<Rightarrow> exn option" where
  "ringError [] = None"
| "ringError (r # rs) =
     (if length r < 4
      then Some (Error ''Each LinearRing of a Polygon must have 4 or more Positions.'')
      else if last r \<noteq> hd r then Some (Error ''First and last Position are not equivalent.'')
      else ringError rs)"

definition box_polygon :: "ring list \<Rightarrow> exn + geometry" where
  "box_polygon cs = (case ringError cs of Some ex \<Rightarrow> Inl ex | None \<Rightarrow> Inr (Polygon cs))"

definition box_intersect :: "geometry \<Rightarrow> geometry \<Rightarrow> exn + geometry option" where
  "box_intersect a b =
     (case (boxOf a, boxOf b) of
        (Some A, Some B) \<Rightarrow>
          if box_nonempty (box_inter A B) then Inr (Some (Polygon [boxRing (box_inter A B)]))
          else Inr None
      | _ \<Rightarrow> Inr None)"

fun box_within :: "box \<Rightarrow> box \<Rightarrow> bool" where
  "box_within (w2, s2, e2, n2) (w1, s1, e1, n1) =
     (\<not> box_nonempty (w2, s2, e2, n2) \<or> (w1 \<le> w2 \<and> e2 \<le> e1 \<and> s1 \<le> s2 \<and> n2 \<le> n1))"

definition box_contains :: "geometry \<Rightarrow> geometry \<Rightarrow> exn + bool" where
  "box_contains a b =
     (case boxOf b of
        None \<Rightarrow> Inr True
      | Some B \<Rightarrow>
          (case boxOf a of
             None \<Rightarrow> Inr (\<not> box_nonempty B)
           | Some A \<Rightarrow> Inr (box_within B A)))"

fun strips :: "box \<Rightarrow> box \<Rightarrow> box list" where
  "strips (w1, s1, e1, n1) (wi, si, ei, ni) =
     filter box_nonempty
       [(w1, s1, wi, n1), (ei, s1, e1, n1), (wi, s1, ei, si), (wi, ni, ei, n1)]"

definition box_difference :: "geometry \<Rightarrow> geometry \<Rightarrow> exn + geometry option" where
  "box_difference a b =
     (case boxOf a of
        None \<Rightarrow> Inr None
      | Some A \<Rightarrow>
          if \<not> box_nonempty A then Inr None
          else
            (case boxOf b of
               None \<Rightarrow> Inr (Some a)
             | Some B \<Rightarrow>
                 if \<not> box_nonempty (box_inter A B) then Inr (Some a)
                 else
                   (case strips A (box_inter A B) of
                      [] \<Rightarrow> Inr None
                    | [p] \<Rightarrow> Inr (Some (Polygon [boxRing p]))
                    | ps \<Rightarrow> Inr (Some (MultiPolygon (map (\<lambda>p. [boxRing p]) ps))))))"

definition box_area :: "geometry \<Rightarrow> exn + real" where
  "box_area g =
     (case boxOf g of
        Some (w, s, e, n) \<Rightarrow> Inr (if box_nonempty (w, s, e, n) then (e - w) * (n - s) else 0)
      | None \<Rightarrow> Inr 0)"

definition box_circle :: "position \<Rightarrow> real \<Rightarrow> exn + geometry" where
  "box_circle c r =
     (if length c = 2
      then Inr (Polygon [boxRing (c ! 0 - r, c ! 1 - r, c ! 0 + r, c ! 1 + r)])
      else Inl (Error ''coordinates must contain numbers''))"

definition boxlib :: libs where
  "boxlib =
     \<lparr>turf_polygon = box_polygon, turf_intersect = box_intersect,
      turf_booleanContains = box_contains, turf_difference = box_difference,
      turf_area = box_area, turf_circle = box_circle,
      distanceTo = (\<lambda>a b. \<bar>lat a - lat b\<bar> + \<bar>lng a - lng b\<bar>)\<rparr>"

text \<open>
  \<^verbatim>\<open>turf.area\<close> returns square metres on the sphere, not square degrees: a square
  degree at the equator is about 12391399902 square metres, and a degree of longitude
  shrinks with the cosine of the latitude. \<open>sphere_area\<close> measures a box that way, with the
  cosine at the middle latitude replaced by the first two terms of its series;
  \<open>spherelib\<close> is the box library with this area.
\<close>

definition sphere_area :: "geometry \<Rightarrow> exn + real" where
  "sphere_area g =
     (case boxOf g of
        Some (w, s, e, n) \<Rightarrow>
          Inr (if box_nonempty (w, s, e, n)
               then (e - w) * (n - s) * 12391399902
                      * (1 - 1523 / 10000000 * ((s + n) / 2) * ((s + n) / 2))
               else 0)
      | None \<Rightarrow> Inr 0)"

definition spherelib :: libs where
  "spherelib = boxlib\<lparr>turf_area := sphere_area\<rparr>"

section \<open>The box library meets the requirements\<close>

lemma boxOf_boxRing [simp]: "boxOf (Polygon [boxRing b]) = Some b"
  by (cases b) (simp add: boxOf_def boxRing_def)

lemma boxOf_SomeD: "boxOf g = Some b \<Longrightarrow> g = Polygon [boxRing b]"
  by (auto simp: boxOf_def Let_def split: geometry.splits if_splits)

lemma boxOf_eval:
  "boxOf (Polygon [[[w, s], [e, s], [e, n], [w, n], [w, s]]]) = Some (w, s, e, n)"
  by (simp add: boxOf_def boxRing_def)

lemma box_points_empty: "box_points b = {} \<longleftrightarrow> \<not> box_nonempty b"
  by (cases b) auto

lemma box_points_inter: "box_points A \<inter> box_points B = box_points (box_inter A B)"
  by (cases A; cases B) auto

lemma box_points_subset: "box_points B \<subseteq> box_points A \<longleftrightarrow> box_within B A"
  by (cases A; cases B)
     (auto simp: times_subset_iff greaterThanLessThan_subseteq_greaterThanLessThan)

lemma region_box: "boxOf g = Some b \<Longrightarrow> region g = box_points b"
  by (simp add: region_def)

lemma region_nobox: "boxOf g = None \<Longrightarrow> region g = {}"
  by (simp add: region_def)

lemma region_boxRing: "region (Polygon [boxRing p]) = box_points p"
  by (simp add: region_def)

lemma boxlib_polygon_wraps: "polygon_wraps boxlib"
  by (auto simp: polygon_wraps_def boxlib_def box_polygon_def split: option.splits)

lemma boxlib_intersect_exact: "intersect_exact boxlib region"
proof -
  have "(r = None) = (region a \<inter> region b = {})" if "box_intersect a b = Inr r" for a b r
  proof (cases "boxOf a")
    case None
    with that show ?thesis by (simp add: box_intersect_def region_nobox)
  next
    case A: (Some A)
    show ?thesis
    proof (cases "boxOf b")
      case None
      with that A show ?thesis by (simp add: box_intersect_def region_nobox)
    next
      case B: (Some B)
      have "region a \<inter> region b = {} \<longleftrightarrow> \<not> box_nonempty (box_inter A B)"
        by (simp only: region_box [OF A] region_box [OF B] box_points_inter box_points_empty)
      with that A B show ?thesis
        by (auto simp: box_intersect_def split: if_splits)
    qed
  qed
  then show ?thesis by (simp add: intersect_exact_def boxlib_def)
qed

lemma boxlib_intersect_fails_both: "intersect_fails_both boxlib"
  by (auto simp: intersect_fails_both_def boxlib_def box_intersect_def split: option.splits if_splits)

lemma boxlib_contains_exact: "contains_exact boxlib region"
proof -
  have "box_contains a b = Inr (region b \<subseteq> region a)" for a b
  proof (cases "boxOf b")
    case None
    then show ?thesis by (simp add: box_contains_def region_nobox)
  next
    case B: (Some B)
    show ?thesis
    proof (cases "boxOf a")
      case None
      with B show ?thesis
        by (simp add: box_contains_def region_nobox region_box box_points_empty)
    next
      case A: (Some A)
      then show ?thesis
        by (simp only: region_box [OF A] region_box [OF B] box_points_subset box_contains_def B A
              option.case)
    qed
  qed
  then show ?thesis by (simp add: contains_exact_def boxlib_def)
qed


lemma strips_sound:
  "box_nonempty (box_inter A B) \<Longrightarrow> p \<in> set (strips A (box_inter A B)) \<Longrightarrow>
   box_points p \<subseteq> box_points A - box_points B"
  by (cases A; cases B) (auto simp: max_def min_def split: if_splits)

lemma box_polygon_boxRing: "box_polygon [boxRing p] = Inr (Polygon [boxRing p])"
  by (cases p) (simp add: box_polygon_def boxRing_def)

lemma box_difference_parts:
  assumes "box_difference a b = Inr (Some d)"
  shows "(\<forall>cs. d = Polygon cs \<longrightarrow>
            region (Polygon cs) \<subseteq> region a - region b \<and> box_polygon cs = Inr (Polygon cs))
       \<and> (\<forall>css. d = MultiPolygon css \<longrightarrow>
            (\<forall>cs \<in> set css. region (Polygon cs) \<subseteq> region a - region b))"
proof (cases "boxOf a")
  case None
  with assms show ?thesis by (simp add: box_difference_def)
next
  case A: (Some A)
  note a = boxOf_SomeD [OF A]
  from assms A have ne: "box_nonempty A"
    by (auto simp: box_difference_def split: if_splits)
  show ?thesis
  proof (cases "boxOf b")
    case None
    with assms A ne have "d = a" by (simp add: box_difference_def)
    then show ?thesis
      using a by (simp add: region_nobox [OF None] box_polygon_boxRing)
  next
    case B: (Some B)
    show ?thesis
    proof (cases "box_nonempty (box_inter A B)")
      case False
      with assms A B ne have "d = a" by (simp add: box_difference_def)
      moreover from False have "region a \<inter> region b = {}"
        by (simp add: region_box [OF A] region_box [OF B] box_points_inter box_points_empty)
      ultimately show ?thesis
        using a by (auto simp: box_polygon_boxRing)
    next
      case True
      have sub: "region (Polygon [boxRing p]) \<subseteq> region a - region b"
        if "p \<in> set (strips A (box_inter A B))" for p
        using strips_sound [OF True that]
        by (simp only: region_box [OF A] region_box [OF B] region_boxRing)
      from assms A B ne True
      have "(\<exists>p. strips A (box_inter A B) = [p] \<and> d = Polygon [boxRing p])
          \<or> d = MultiPolygon (map (\<lambda>p. [boxRing p]) (strips A (box_inter A B)))"
        by (auto simp: box_difference_def split: list.splits)
      then show ?thesis
      proof
        assume "\<exists>p. strips A (box_inter A B) = [p] \<and> d = Polygon [boxRing p]"
        then obtain p where "strips A (box_inter A B) = [p]" and "d = Polygon [boxRing p]"
          by blast
        then show ?thesis
          using sub [of p] by (simp add: box_polygon_boxRing)
      next
        assume "d = MultiPolygon (map (\<lambda>p. [boxRing p]) (strips A (box_inter A B)))"
        then show ?thesis
          using sub by auto
      qed
    qed
  qed
qed

lemma boxlib_difference_sound: "difference_sound boxlib region"
  unfolding difference_sound_def
  using box_difference_parts by (simp add: boxlib_def)

lemma ringError_closed: "ringError cs = None \<Longrightarrow> list_all closedRing cs"
  by (induction cs) (auto simp: closedRing_def split: if_splits)

lemma closedPolygon_boxRing: "closedPolygon (Polygon [boxRing b])"
  by (cases b) (simp add: boxRing_def closedRing_def)

lemma boxlib_outputs_closed: "outputs_closed boxlib"
proof -
  have "closedPolygon (Polygon cs)" if "box_difference a b = Inr (Some (Polygon cs))" for a b cs
  proof -
    from that obtain A where A: "boxOf a = Some A"
      by (auto simp: box_difference_def split: option.splits)
    from that A have "Polygon cs = a \<or> (\<exists>p. Polygon cs = Polygon [boxRing p])"
      by (auto simp: box_difference_def split: option.splits if_splits list.splits)
    with boxOf_SomeD [OF A] show ?thesis
      using closedPolygon_boxRing by metis
  qed
  moreover have "closedPolygon g" if "box_polygon cs = Inr g" for cs g
    using that by (auto simp: box_polygon_def ringError_closed split: option.splits)
  moreover have "closedPolygon g" if "box_circle c r = Inr g" for c r g
    using that closedPolygon_boxRing by (auto simp: box_circle_def split: if_splits)
  ultimately show ?thesis
    by (simp add: outputs_closed_def boxlib_def)
qed

lemmas boxlib_eval =
  boxlib_def box_polygon_def box_intersect_def box_difference_def box_area_def
  box_contains_def box_circle_def boxRing_def boxOf_eval

lemmas spherelib_eval = spherelib_def sphere_area_def boxlib_eval

lemmas planar_eval = ringArea_def crossProduct_def

section \<open>Lemmas on polygonUtils\<close>

lemma geometryToPolygon_wraps:
  "polygon_wraps lib \<Longrightarrow> geometryToPolygon lib g = Inr (Some p) \<Longrightarrow> p = g"
  by (cases g) (auto simp: polygon_wraps_def split: sum.splits)

lemma geometryToPolygon_cases:
  "geometryToPolygon lib g = Inr None \<longleftrightarrow> (\<forall>cs. g \<noteq> Polygon cs)"
  by (cases g) (auto split: sum.splits)

lemma geometryToPolygon_Some_iff:
  "polygon_wraps lib \<Longrightarrow> geometryToPolygon lib g = Inr r \<Longrightarrow>
   (\<exists>cs. g = Polygon cs) \<longleftrightarrow> r = Some g"
  by (cases g) (auto simp: polygon_wraps_def split: sum.splits)

text \<open>
  What the \<^verbatim>\<open>try\<close> blocks do catch: once both conversions have returned, none of
  the three functions lets an exception out.
\<close>

lemma doPolygonsOverlap_catches:
  "geometryToPolygon lib g1 = Inr p1 \<Longrightarrow> geometryToPolygon lib g2 = Inr p2 \<Longrightarrow>
   \<exists>b. doPolygonsOverlap lib g1 g2 = Inr b"
  by (auto simp: doPolygonsOverlap_def split: sum.splits option.splits)

lemma doesPolygonEnclose_catches:
  "geometryToPolygon lib g1 = Inr p1 \<Longrightarrow> geometryToPolygon lib g2 = Inr p2 \<Longrightarrow>
   \<exists>b. doesPolygonEnclose lib g1 g2 = Inr b"
  by (auto simp: doesPolygonEnclose_def split: sum.splits option.splits)

lemma trimPolygonOverlap_catches:
  "geometryToPolygon lib g = Inr p \<Longrightarrow> \<exists>r. trimPolygonOverlap lib g es = Inr r"
  by (auto simp: trimPolygonOverlap_def split: sum.splits option.splits)

lemma doesPolygonEnclose_exact:
  assumes w: "polygon_wraps lib" and c: "contains_exact lib R"
    and a: "geometryToPolygon lib a = Inr (Some pa)" and b: "geometryToPolygon lib b = Inr (Some pb)"
  shows "doesPolygonEnclose lib a b = Inr (R b \<subseteq> R a)"
proof -
  from geometryToPolygon_wraps [OF w a] geometryToPolygon_wraps [OF w b]
  have "pa = a" "pb = b" by simp_all
  with a b c show ?thesis
    by (simp add: doesPolygonEnclose_def contains_exact_def)
qed

lemma doesPolygonEnclose_TrueD:
  "doesPolygonEnclose lib a b = Inr True \<Longrightarrow>
   \<exists>pa pb. geometryToPolygon lib a = Inr (Some pa) \<and> geometryToPolygon lib b = Inr (Some pb)"
  by (auto simp: doesPolygonEnclose_def split: sum.splits option.splits)

lemma doesPolygonEnclose_InrD:
  "doesPolygonEnclose lib a b = Inr r \<Longrightarrow>
   (\<exists>pa. geometryToPolygon lib a = Inr pa) \<and> (\<exists>pb. geometryToPolygon lib b = Inr pb)"
  by (auto simp: doesPolygonEnclose_def split: sum.splits)

lemma doPolygonsOverlap_sym:
  assumes i: "intersect_exact lib R" and f: "intersect_fails_both lib"
    and o: "doPolygonsOverlap lib a b = Inr False"
  shows "doPolygonsOverlap lib b a = Inr False"
proof -
  from o obtain pa pb where pa: "geometryToPolygon lib a = Inr pa"
    and pb: "geometryToPolygon lib b = Inr pb"
    by (auto simp: doPolygonsOverlap_def split: sum.splits)
  show ?thesis
  proof (cases "\<exists>p1 p2. pa = Some p1 \<and> pb = Some p2")
    case False
    with pa pb show ?thesis
      by (cases pa; cases pb) (simp_all add: doPolygonsOverlap_def)
  next
    case True
    then obtain p1 p2 where p: "pa = Some p1" "pb = Some p2" by blast
    with o pa pb have fw: "(\<exists>x. turf_intersect lib p1 p2 = Inl x) \<or> turf_intersect lib p1 p2 = Inr None"
      by (auto simp: doPolygonsOverlap_def split: sum.splits)
    have nb: "turf_intersect lib p2 p1 \<noteq> Inr (Some v)" for v
    proof
      assume bw: "turf_intersect lib p2 p1 = Inr (Some v)"
      with f have "\<not> (\<exists>x. turf_intersect lib p1 p2 = Inl x)"
        unfolding intersect_fails_both_def by (metis Inl_Inr_False)
      with fw have "turf_intersect lib p1 p2 = Inr None" by blast
      with i have "R p1 \<inter> R p2 = {}" unfolding intersect_exact_def by blast
      then have "R p2 \<inter> R p1 = {}" by blast
      with i bw show False unfolding intersect_exact_def by blast
    qed
    have "(\<exists>x. turf_intersect lib p2 p1 = Inl x) \<or> turf_intersect lib p2 p1 = Inr None"
    proof (cases "turf_intersect lib p2 p1")
      case (Inl x)
      then show ?thesis by simp
    next
      case (Inr r)
      with nb show ?thesis by (cases r) blast+
    qed
    with pa pb p show ?thesis
      by (auto simp: doPolygonsOverlap_def)
  qed
qed

lemma disjoint_no_overlap:
  assumes i: "intersect_exact lib R"
    and a: "geometryToPolygon lib a = Inr (Some a)" and b: "geometryToPolygon lib b = Inr (Some b)"
    and d: "R a \<inter> R b = {}"
  shows "doPolygonsOverlap lib a b = Inr False"
proof -
  have nb: "turf_intersect lib a b \<noteq> Inr (Some v)" for v
    using i d unfolding intersect_exact_def by blast
  have "(\<exists>x. turf_intersect lib a b = Inl x) \<or> turf_intersect lib a b = Inr None"
  proof (cases "turf_intersect lib a b")
    case (Inl x)
    then show ?thesis by simp
  next
    case (Inr r)
    with nb show ?thesis by (cases r) blast+
  qed
  with a b show ?thesis
    by (auto simp: doPolygonsOverlap_def)
qed

lemma mapPolygon_wraps:
  "polygon_wraps lib \<Longrightarrow> mapPolygon lib css = Inr ps \<Longrightarrow>
   ps = map Polygon css \<and> (\<forall>cs \<in> set css. turf_polygon lib cs = Inr (Polygon cs))"
proof (induction css arbitrary: ps)
  case Nil
  then show ?case by simp
next
  case (Cons cs css)
  from Cons.prems(2) obtain p ps' where p: "turf_polygon lib cs = Inr p"
    and ps': "mapPolygon lib css = Inr ps'" and ps: "ps = p # ps'"
    by (auto split: sum.splits)
  from Cons.prems(1) p have "p = Polygon cs" by (simp add: polygon_wraps_def)
  with Cons.IH [OF Cons.prems(1) ps'] p ps show ?case by simp
qed

lemma mapPolygon_closed:
  "outputs_closed lib \<Longrightarrow> mapPolygon lib css = Inr ps \<Longrightarrow> \<forall>p \<in> set ps. closedPolygon p"
proof (induction css arbitrary: ps)
  case Nil
  then show ?case by simp
next
  case (Cons cs css)
  from Cons.prems(2) obtain p ps' where "turf_polygon lib cs = Inr p"
    and "mapPolygon lib css = Inr ps'" and "ps = p # ps'"
    by (auto split: sum.splits)
  with Cons.IH [OF Cons.prems(1)] Cons.prems(1) show ?case
    by (auto simp: outputs_closed_def)
qed

lemma reduceFrom_mem: "reduceFrom lib m ps = Inr l \<Longrightarrow> l = m \<or> l \<in> set ps"
proof (induction ps arbitrary: m)
  case Nil
  then show ?case by simp
next
  case (Cons p ps)
  from Cons.prems obtain m' where m': "largerOf lib m p = Inr m'" and r: "reduceFrom lib m' ps = Inr l"
    by (auto split: sum.splits)
  from m' have "m' = m \<or> m' = p"
    by (auto simp: largerOf_def split: sum.splits if_splits)
  with Cons.IH [OF r] show ?case by auto
qed

lemma largest_mem: "largest lib ps = Inr l \<Longrightarrow> l \<in> set ps"
  by (cases ps) (auto dest: reduceFrom_mem)

lemma reduceFrom_first_max:
  "reduceFrom lib m ps = Inr l \<Longrightarrow> ps \<noteq> [] \<Longrightarrow>
   \<exists>am al. turf_area lib m = Inr am \<and> turf_area lib l = Inr al \<and> am \<le> al \<and>
     ((l = m \<and> (\<forall>p \<in> set ps. \<exists>a. turf_area lib p = Inr a \<and> a \<le> al)) \<or>
      (am < al \<and> (\<exists>us vs. ps = us @ l # vs
          \<and> (\<forall>u \<in> set us. \<exists>a. turf_area lib u = Inr a \<and> a < al)
          \<and> (\<forall>v \<in> set vs. \<exists>a. turf_area lib v = Inr a \<and> a \<le> al))))"
proof (induction ps arbitrary: m)
  case Nil
  then show ?case by simp
next
  case (Cons p ps)
  from Cons.prems(1) obtain m' where m': "largerOf lib m p = Inr m'"
    and r: "reduceFrom lib m' ps = Inr l"
    by (auto split: sum.splits)
  from m' obtain am ap where am: "turf_area lib m = Inr am" and ap: "turf_area lib p = Inr ap"
    and m'_def: "m' = (if ap > am then p else m)"
    by (auto simp: largerOf_def split: sum.splits)
  show ?case
  proof (cases "ps = []")
    case True
    with r have l: "l = m'" by simp
    show ?thesis
    proof (cases "ap > am")
      case True
      with l m'_def have "l = p" by simp
      with am ap True \<open>ps = []\<close>
      have "turf_area lib m = Inr am \<and> turf_area lib l = Inr ap \<and> am \<le> ap \<and> am < ap
        \<and> p # ps = [] @ l # []
        \<and> (\<forall>u \<in> set []. \<exists>a. turf_area lib u = Inr a \<and> a < ap)
        \<and> (\<forall>v \<in> set []. \<exists>a. turf_area lib v = Inr a \<and> a \<le> ap)"
        by simp
      then show ?thesis by blast
    next
      case False
      with l m'_def have "l = m" by simp
      with am ap False \<open>ps = []\<close> show ?thesis by auto
    qed
  next
    case False
    from Cons.IH [OF r False] obtain am' al where am': "turf_area lib m' = Inr am'"
      and al: "turf_area lib l = Inr al" and le: "am' \<le> al"
      and alt: "(l = m' \<and> (\<forall>q \<in> set ps. \<exists>a. turf_area lib q = Inr a \<and> a \<le> al)) \<or>
        (am' < al \<and> (\<exists>us vs. ps = us @ l # vs
          \<and> (\<forall>u \<in> set us. \<exists>a. turf_area lib u = Inr a \<and> a < al)
          \<and> (\<forall>v \<in> set vs. \<exists>a. turf_area lib v = Inr a \<and> a \<le> al)))"
      by blast
    show ?thesis
    proof (cases "ap > am")
      case True
      with m'_def have mp: "m' = p" by simp
      with am' ap have [simp]: "am' = ap" by simp
      from alt show ?thesis
      proof
        assume a: "l = m' \<and> (\<forall>q \<in> set ps. \<exists>a. turf_area lib q = Inr a \<and> a \<le> al)"
        with mp al ap have "al = ap" by simp
        with a mp am al True have "am < al \<and> p # ps = [] @ l # ps
          \<and> (\<forall>v \<in> set ps. \<exists>a. turf_area lib v = Inr a \<and> a \<le> al)"
          by simp
        with am al show ?thesis by (intro exI conjI disjI2) auto
      next
        assume "am' < al \<and> (\<exists>us vs. ps = us @ l # vs
          \<and> (\<forall>u \<in> set us. \<exists>a. turf_area lib u = Inr a \<and> a < al)
          \<and> (\<forall>v \<in> set vs. \<exists>a. turf_area lib v = Inr a \<and> a \<le> al))"
        then obtain us vs where lt: "ap < al" and ps: "ps = us @ l # vs"
          and us: "\<forall>u \<in> set us. \<exists>a. turf_area lib u = Inr a \<and> a < al"
          and vs: "\<forall>v \<in> set vs. \<exists>a. turf_area lib v = Inr a \<and> a \<le> al"
          by auto
        from ps have "p # ps = (p # us) @ l # vs" by simp
        moreover from us ap lt have "\<forall>u \<in> set (p # us). \<exists>a. turf_area lib u = Inr a \<and> a < al"
          by simp
        moreover from True lt have "am < al" by simp
        ultimately show ?thesis using am al vs by (intro exI conjI disjI2) auto
      qed
    next
      case False
      with m'_def have mm: "m' = m" by simp
      with am' am have [simp]: "am' = am" by simp
      from alt show ?thesis
      proof
        assume a: "l = m' \<and> (\<forall>q \<in> set ps. \<exists>a. turf_area lib q = Inr a \<and> a \<le> al)"
        with mm al am have "al = am" by simp
        with a mm am ap False show ?thesis by auto
      next
        assume "am' < al \<and> (\<exists>us vs. ps = us @ l # vs
          \<and> (\<forall>u \<in> set us. \<exists>a. turf_area lib u = Inr a \<and> a < al)
          \<and> (\<forall>v \<in> set vs. \<exists>a. turf_area lib v = Inr a \<and> a \<le> al))"
        then obtain us vs where lt: "am < al" and ps: "ps = us @ l # vs"
          and us: "\<forall>u \<in> set us. \<exists>a. turf_area lib u = Inr a \<and> a < al"
          and vs: "\<forall>v \<in> set vs. \<exists>a. turf_area lib v = Inr a \<and> a \<le> al"
          by auto
        from ps have "p # ps = (p # us) @ l # vs" by simp
        moreover from us ap lt False
        have "\<forall>u \<in> set (p # us). \<exists>a. turf_area lib u = Inr a \<and> a < al"
          by simp
        ultimately show ?thesis using am al vs lt by (intro exI conjI disjI2) auto
      qed
    qed
  qed
qed

lemma largest_first_max:
  assumes "largest lib ps = Inr l"
  shows "\<exists>us vs. ps = us @ l # vs \<and>
           ((us = [] \<and> vs = []) \<or>
            (\<exists>al. turf_area lib l = Inr al
               \<and> (\<forall>u \<in> set us. \<exists>a. turf_area lib u = Inr a \<and> a < al)
               \<and> (\<forall>v \<in> set vs. \<exists>a. turf_area lib v = Inr a \<and> a \<le> al)))"
proof (cases ps)
  case Nil
  with assms show ?thesis by simp
next
  case (Cons p rest)
  with assms have r: "reduceFrom lib p rest = Inr l" by simp
  show ?thesis
  proof (cases "rest = []")
    case True
    with r Cons have "ps = [] @ l # []" by simp
    then show ?thesis by blast
  next
    case False
    from reduceFrom_first_max [OF r False] obtain am al
      where am: "turf_area lib p = Inr am" and al: "turf_area lib l = Inr al"
        and alt: "(l = p \<and> (\<forall>q \<in> set rest. \<exists>a. turf_area lib q = Inr a \<and> a \<le> al)) \<or>
          (am < al \<and> (\<exists>us vs. rest = us @ l # vs
            \<and> (\<forall>u \<in> set us. \<exists>a. turf_area lib u = Inr a \<and> a < al)
            \<and> (\<forall>v \<in> set vs. \<exists>a. turf_area lib v = Inr a \<and> a \<le> al)))"
      by blast
    from alt show ?thesis
    proof
      assume "l = p \<and> (\<forall>q \<in> set rest. \<exists>a. turf_area lib q = Inr a \<and> a \<le> al)"
      with Cons al have "ps = [] @ l # rest \<and> (\<exists>al. turf_area lib l = Inr al
               \<and> (\<forall>u \<in> set []. \<exists>a. turf_area lib u = Inr a \<and> a < al)
               \<and> (\<forall>v \<in> set rest. \<exists>a. turf_area lib v = Inr a \<and> a \<le> al))"
        by simp
      then show ?thesis by blast
    next
      assume "am < al \<and> (\<exists>us vs. rest = us @ l # vs
            \<and> (\<forall>u \<in> set us. \<exists>a. turf_area lib u = Inr a \<and> a < al)
            \<and> (\<forall>v \<in> set vs. \<exists>a. turf_area lib v = Inr a \<and> a \<le> al))"
      then obtain us vs where lt: "am < al" and rest: "rest = us @ l # vs"
        and us: "\<forall>u \<in> set us. \<exists>a. turf_area lib u = Inr a \<and> a < al"
        and vs: "\<forall>v \<in> set vs. \<exists>a. turf_area lib v = Inr a \<and> a \<le> al"
        by auto
      from Cons rest have "ps = (p # us) @ l # vs" by simp
      moreover from us am lt have "\<forall>u \<in> set (p # us). \<exists>a. turf_area lib u = Inr a \<and> a < al"
        by simp
      ultimately show ?thesis using al vs by blast
    qed
  qed
qed

lemma trimLoop_region:
  assumes w: "polygon_wraps lib" and i: "intersect_exact lib R" and d: "difference_sound lib R"
  shows "geometryToPolygon lib cur = Inr (Some cur) \<Longrightarrow> trimLoop lib cur es = Inr (Some f) \<Longrightarrow>
         R f \<subseteq> R cur \<and> geometryToPolygon lib f = Inr (Some f) \<and>
         (\<forall>e \<in> set es. \<forall>cs. e = Polygon cs \<longrightarrow>
            R f \<inter> R e = {} \<and> geometryToPolygon lib e = Inr (Some e))"
proof (induction es arbitrary: cur)
  case Nil
  then show ?case by simp
next
  case (Cons e es)
  show ?case
  proof (cases "geometryToPolygon lib e")
    case (Inl x)
    with Cons.prems show ?thesis by simp
  next
    case (Inr r)
    show ?thesis
    proof (cases r)
      case None
      with Inr Cons.prems have "trimLoop lib cur es = Inr (Some f)" by simp
      from Cons.IH [OF Cons.prems(1) this] Inr None show ?thesis
        by (auto simp: geometryToPolygon_cases)
    next
      case (Some ep)
      with Inr w have ep: "ep = e" by (auto dest: geometryToPolygon_wraps)
      note conv = Inr [unfolded Some ep]
      show ?thesis
      proof (cases "turf_intersect lib cur e")
        case (Inl x)
        with conv Cons.prems show ?thesis by simp
      next
        case inter: (Inr ir)
        show ?thesis
        proof (cases ir)
          case None
          with inter i have disj: "R cur \<inter> R e = {}"
            unfolding intersect_exact_def by blast
          from None inter conv Cons.prems have "trimLoop lib cur es = Inr (Some f)" by simp
          from Cons.IH [OF Cons.prems(1) this] disj conv show ?thesis by auto
        next
          case (Some iv)
          from Some inter conv Cons.prems(2)
          have "\<exists>nxt. trimLoop lib nxt es = Inr (Some f) \<and>
                  ((\<exists>cs. turf_difference lib cur e = Inr (Some (Polygon cs)) \<and> nxt = Polygon cs)
                 \<or> (\<exists>css ps. turf_difference lib cur e = Inr (Some (MultiPolygon css))
                        \<and> mapPolygon lib css = Inr ps \<and> largest lib ps = Inr nxt))"
            by (auto split: sum.splits option.splits geometry.splits)
          then obtain nxt where loop: "trimLoop lib nxt es = Inr (Some f)"
            and how: "(\<exists>cs. turf_difference lib cur e = Inr (Some (Polygon cs)) \<and> nxt = Polygon cs)
                 \<or> (\<exists>css ps. turf_difference lib cur e = Inr (Some (MultiPolygon css))
                        \<and> mapPolygon lib css = Inr ps \<and> largest lib ps = Inr nxt)"
            by blast
          from how have nxt: "R nxt \<subseteq> R cur - R e \<and> geometryToPolygon lib nxt = Inr (Some nxt)"
          proof
            assume "\<exists>cs. turf_difference lib cur e = Inr (Some (Polygon cs)) \<and> nxt = Polygon cs"
            with d show ?thesis by (auto simp: difference_sound_def)
          next
            assume "\<exists>css ps. turf_difference lib cur e = Inr (Some (MultiPolygon css))
                        \<and> mapPolygon lib css = Inr ps \<and> largest lib ps = Inr nxt"
            then obtain css ps where df: "turf_difference lib cur e = Inr (Some (MultiPolygon css))"
              and mp: "mapPolygon lib css = Inr ps" and lg: "largest lib ps = Inr nxt"
              by blast
            from mapPolygon_wraps [OF w mp] largest_mem [OF lg]
            obtain cs where "cs \<in> set css" and "nxt = Polygon cs"
              and "turf_polygon lib cs = Inr (Polygon cs)"
              by auto
            with d df show ?thesis by (auto simp: difference_sound_def)
          qed
          from Cons.IH [OF _ loop] nxt conv show ?thesis by auto
        qed
      qed
    qed
  qed
qed

lemma trimLoop_shrinks:
  assumes w: "polygon_wraps lib" and d: "difference_sound lib R"
  shows "geometryToPolygon lib cur = Inr (Some cur) \<Longrightarrow> trimLoop lib cur es = Inr (Some f) \<Longrightarrow>
         R f \<subseteq> R cur \<and> geometryToPolygon lib f = Inr (Some f)"
proof (induction es arbitrary: cur)
  case Nil
  then show ?case by simp
next
  case (Cons e es)
  from Cons.prems(2)
  have "\<exists>nxt. trimLoop lib nxt es = Inr (Some f) \<and>
          (nxt = cur
         \<or> (\<exists>ep cs. turf_difference lib cur ep = Inr (Some (Polygon cs)) \<and> nxt = Polygon cs)
         \<or> (\<exists>ep css ps. turf_difference lib cur ep = Inr (Some (MultiPolygon css))
                \<and> mapPolygon lib css = Inr ps \<and> largest lib ps = Inr nxt))"
    by (auto split: sum.splits option.splits geometry.splits)
  then obtain nxt where loop: "trimLoop lib nxt es = Inr (Some f)"
    and how: "nxt = cur
         \<or> (\<exists>ep cs. turf_difference lib cur ep = Inr (Some (Polygon cs)) \<and> nxt = Polygon cs)
         \<or> (\<exists>ep css ps. turf_difference lib cur ep = Inr (Some (MultiPolygon css))
                \<and> mapPolygon lib css = Inr ps \<and> largest lib ps = Inr nxt)"
    by blast
  from how have nxt: "R nxt \<subseteq> R cur \<and> geometryToPolygon lib nxt = Inr (Some nxt)"
  proof (elim disjE exE conjE)
    assume "nxt = cur"
    with Cons.prems(1) show ?thesis by simp
  next
    fix ep cs
    assume "turf_difference lib cur ep = Inr (Some (Polygon cs))" and "nxt = Polygon cs"
    with d show ?thesis by (auto simp: difference_sound_def)
  next
    fix ep css ps
    assume df: "turf_difference lib cur ep = Inr (Some (MultiPolygon css))"
      and mp: "mapPolygon lib css = Inr ps" and lg: "largest lib ps = Inr nxt"
    from mapPolygon_wraps [OF w mp] largest_mem [OF lg]
    obtain cs where cs: "cs \<in> set css" and n: "nxt = Polygon cs"
      and p: "turf_polygon lib cs = Inr (Polygon cs)"
      by auto
    from d df cs have "R (Polygon cs) \<subseteq> R cur - R ep"
      unfolding difference_sound_def by blast
    with n p show ?thesis by auto
  qed
  from Cons.IH [OF _ loop] nxt show ?case by auto
qed

lemma trimLoop_closed:
  assumes c: "outputs_closed lib"
  shows "closedPolygon cur \<Longrightarrow> trimLoop lib cur es = Inr (Some f) \<Longrightarrow> closedPolygon f"
proof (induction es arbitrary: cur)
  case Nil
  then show ?case by simp
next
  case (Cons e es)
  from Cons.prems(2)
  have "trimLoop lib cur es = Inr (Some f)
      \<or> (\<exists>cs. turf_difference lib cur (the (projr (geometryToPolygon lib e))) = Inr (Some (Polygon cs))
             \<and> trimLoop lib (Polygon cs) es = Inr (Some f))
      \<or> (\<exists>css ps l. mapPolygon lib css = Inr ps \<and> largest lib ps = Inr l
             \<and> trimLoop lib l es = Inr (Some f))"
    by (auto split: sum.splits option.splits geometry.splits)
  then show ?case
  proof (elim disjE exE conjE)
    assume "trimLoop lib cur es = Inr (Some f)"
    from Cons.IH [OF Cons.prems(1) this] show ?thesis .
  next
    fix cs
    assume d: "turf_difference lib cur (the (projr (geometryToPolygon lib e))) = Inr (Some (Polygon cs))"
      and l: "trimLoop lib (Polygon cs) es = Inr (Some f)"
    from c d have "closedPolygon (Polygon cs)" unfolding outputs_closed_def by blast
    from Cons.IH [OF this l] show ?thesis .
  next
    fix css ps l
    assume "mapPolygon lib css = Inr ps" and "largest lib ps = Inr l"
      and l: "trimLoop lib l es = Inr (Some f)"
    with mapPolygon_closed [OF c] largest_mem have "closedPolygon l" by blast
    from Cons.IH [OF this l] show ?thesis .
  qed
qed



lemma trimPolygonOverlap_shrinks:
  assumes w: "polygon_wraps lib" and d: "difference_sound lib R"
    and t: "trimPolygonOverlap lib g es = Inr (Some g')"
  shows "R g' \<subseteq> R g \<and> geometryToPolygon lib g' = Inr (Some g')
       \<and> geometryToPolygon lib g = Inr (Some g)"
proof -
  from t obtain cur where cur: "geometryToPolygon lib g = Inr (Some cur)"
    and l: "trimLoop lib cur es = Inr (Some g')"
    by (auto simp: trimPolygonOverlap_def trimBody_def split: sum.splits option.splits if_splits)
  from geometryToPolygon_wraps [OF w cur] cur have c: "geometryToPolygon lib g = Inr (Some g)"
    and "cur = g"
    by simp_all
  with trimLoop_shrinks [OF w d _ l] show ?thesis by simp
qed

lemma trimPolygonOverlap_closed:
  assumes c: "outputs_closed lib" and t: "trimPolygonOverlap lib g es = Inr (Some g')"
  shows "closedPolygon g'"
proof -
  from t obtain cur where cur: "geometryToPolygon lib g = Inr (Some cur)"
    and l: "trimLoop lib cur es = Inr (Some g')"
    by (auto simp: trimPolygonOverlap_def trimBody_def split: sum.splits option.splits if_splits)
  from cur c have "closedPolygon cur"
    by (cases g) (auto simp: outputs_closed_def split: sum.splits)
  from trimLoop_closed [OF c this l] show ?thesis .
qed

lemma trim_no_overlap:
  assumes w: "polygon_wraps lib" and i: "intersect_exact lib R" and d: "difference_sound lib R"
    and t: "trimPolygonOverlap lib g ex = Inr (Some g')" and e: "e \<in> set ex"
  shows "doPolygonsOverlap lib g' e = Inr False \<and> doPolygonsOverlap lib e g' = Inr False"
proof -
  from t obtain cur where cur: "geometryToPolygon lib g = Inr (Some cur)"
    and l: "trimLoop lib cur ex = Inr (Some g')"
    by (auto simp: trimPolygonOverlap_def trimBody_def split: sum.splits option.splits if_splits)
  from geometryToPolygon_wraps [OF w cur] cur have c: "geometryToPolygon lib cur = Inr (Some cur)"
    by simp
  note reg = trimLoop_region [OF w i d c l]
  then have g': "geometryToPolygon lib g' = Inr (Some g')" by simp
  show ?thesis
  proof (cases "\<exists>cs. e = Polygon cs")
    case False
    then have "geometryToPolygon lib e = Inr None" by (simp add: geometryToPolygon_cases)
    with g' show ?thesis by (simp add: doPolygonsOverlap_def)
  next
    case True
    with reg e have dj: "R g' \<inter> R e = {}" and ee: "geometryToPolygon lib e = Inr (Some e)"
      by auto
    from dj have "R e \<inter> R g' = {}" by blast
    with disjoint_no_overlap [OF i g' ee dj] disjoint_no_overlap [OF i ee g'] show ?thesis
      by simp
  qed
qed

section \<open>Lemmas on the commit pipeline\<close>


lemma enclosureCheck_None:
  "enclosureCheck lib g ex = Inr None \<longleftrightarrow>
   (\<forall>e \<in> set ex. doesPolygonEnclose lib e g = Inr False \<and> doesPolygonEnclose lib g e = Inr False)"
  by (induction ex) (auto split: sum.splits bool.splits)

lemma enclosureCheck_Some:
  "enclosureCheck lib g ex = Inr (Some a) \<Longrightarrow> a = WouldBeEnclosed \<or> a = WouldEnclose"
  by (induction ex) (auto split: sum.splits bool.splits)

lemma enclosureCheck_first_enclosed:
  assumes us: "\<forall>u \<in> set us. (\<exists>r. geometryToPolygon lib u = Inr r)
                 \<and> doesPolygonEnclose lib g u \<noteq> Inr True"
    and g: "geometryToPolygon lib g = Inr rg"
    and e: "doesPolygonEnclose lib e g = Inr True"
  shows "enclosureCheck lib g (us @ e # vs) = Inr (Some WouldBeEnclosed)"
  using us
proof (induction us)
  case Nil
  with e show ?case by simp
next
  case (Cons u us)
  then obtain ru where ru: "geometryToPolygon lib u = Inr ru"
    and nt: "doesPolygonEnclose lib g u \<noteq> Inr True"
    by auto
  from doesPolygonEnclose_catches [OF ru g] obtain b1 where b1: "doesPolygonEnclose lib u g = Inr b1"
    by blast
  from doesPolygonEnclose_catches [OF g ru] nt have b2: "doesPolygonEnclose lib g u = Inr False"
    by auto
  from Cons have "enclosureCheck lib g (us @ e # vs) = Inr (Some WouldBeEnclosed)" by simp
  with b1 b2 show ?case by (cases b1) simp_all
qed

lemma hasOverlap_False:
  "hasOverlap lib g ex = Inr False \<longleftrightarrow> (\<forall>e \<in> set ex. doPolygonsOverlap lib g e = Inr False)"
  by (induction ex) (auto split: sum.splits bool.splits)


lemma overlapConstraints_past_enclosure:
  "isPolygonType type \<Longrightarrow>
   overlapConstraints lib type g fs = Inr (Inr g') \<or> overlapConstraints lib type g fs = Inr (Inl InvalidTrim)
   \<Longrightarrow> enclosureCheck lib g (existingPolygonGeometries fs) = Inr None"
  by (auto simp: overlapConstraints_def dest: enclosureCheck_Some
        split: if_splits sum.splits option.splits bool.splits)

lemma overlapConstraints_closed:
  assumes c: "outputs_closed lib" and g: "closedPolygon g"
    and o: "overlapConstraints lib t g fs = Inr (Inr g')" and t: "isPolygonType t"
  shows "closedPolygon g'"
proof -
  from o t have "g' = g \<or> trimPolygonOverlap lib g (existingPolygonGeometries fs) = Inr (Some g')"
    by (auto simp: overlapConstraints_def split: sum.splits option.splits bool.splits if_splits)
  with g trimPolygonOverlap_closed [OF c] show ?thesis by blast
qed

lemma overlapConstraints_no_overlap:
  assumes w: "polygon_wraps lib" and i: "intersect_exact lib R" and f: "intersect_fails_both lib"
    and d: "difference_sound lib R"
    and t: "isPolygonType t" and o: "overlapConstraints lib t g fs = Inr (Inr g')"
    and e: "e \<in> set (existingPolygonGeometries fs)"
  shows "doPolygonsOverlap lib e g' = Inr False \<and> doPolygonsOverlap lib g' e = Inr False"
proof -
  from o t have "(g' = g \<and> hasOverlap lib g (existingPolygonGeometries fs) = Inr False)
     \<or> trimPolygonOverlap lib g (existingPolygonGeometries fs) = Inr (Some g')"
    by (auto simp: overlapConstraints_def split: sum.splits option.splits bool.splits if_splits)
  then show ?thesis
  proof
    assume "g' = g \<and> hasOverlap lib g (existingPolygonGeometries fs) = Inr False"
    with e have "doPolygonsOverlap lib g' e = Inr False" by (simp add: hasOverlap_False)
    with doPolygonsOverlap_sym [OF i f this] show ?thesis by simp
  next
    assume "trimPolygonOverlap lib g (existingPolygonGeometries fs) = Inr (Some g')"
    from trim_no_overlap [OF w i d this e] show ?thesis by simp
  qed
qed


lemma finishDrawing_cases:
  assumes "finishDrawing lib i type layer s = Inr (a, s')"
  shows "s' = s \<or>
         (\<exists>g g'. layerGeometry lib (polygonPointsRef s) layer = Inr (Inr g)
            \<and> overlapConstraints lib type g (features s) = Inr (Inr g')
            \<and> s' = (addFeature (newFeature i type g') s)
                     \<lparr>currentShapeRef := None, polygonPointsRef := []\<rparr>)"
  using assms by (auto simp: finishDrawing_def split: sum.splits)

lemma finishThen_cases:
  assumes "finishThen (finishDrawing lib i type layer s) = Inr (a, s')"
  shows "s' = setIsDrawing False s \<or>
         (\<exists>g g'. layerGeometry lib (polygonPointsRef s) layer = Inr (Inr g)
            \<and> overlapConstraints lib type g (features s) = Inr (Inr g')
            \<and> s' = setIsDrawing False ((addFeature (newFeature i type g') s)
                     \<lparr>currentShapeRef := None, polygonPointsRef := []\<rparr>))"
proof -
  from assms obtain s0 where f: "finishDrawing lib i type layer s = Inr (a, s0)"
    and s': "s' = setIsDrawing False s0"
    by (auto simp: finishThen_def split: sum.splits)
  from finishDrawing_cases [OF f] s' show ?thesis by auto
qed

lemma layerGeometry_shape:
  assumes c: "outputs_closed lib" and g: "layerGeometry lib pts layer = Inr (Inr g)"
  shows "if layerType layer = TLinestring then lineOfTwo g else closedPolygon g"
proof (cases layer)
  case (L_Circle center radius)
  with g c show ?thesis by (auto simp: outputs_closed_def split: sum.splits)
next
  case (L_Rectangle b)
  with g show ?thesis by (auto simp: closedRing_def)
next
  case (L_Polygon ps)
  with g have n: "3 \<le> length pts" and gg: "g = Polygon [map toCoord pts @ [hd (map toCoord pts)]]"
    by (auto split: if_splits)
  from n have "map toCoord pts \<noteq> []" by auto
  then have "hd (map toCoord pts @ [hd (map toCoord pts)]) = hd (map toCoord pts)" by simp
  with n gg L_Polygon show ?thesis by (simp add: closedRing_def)
next
  case (L_Polyline ps)
  with g show ?thesis by (auto split: if_splits)
qed

lemma isPolygonType_layerType: "isPolygonType (layerType layer) \<longleftrightarrow> layerType layer \<noteq> TLinestring"
  by (cases layer) simp_all

lemma existing_filter_length:
  "length (existingPolygonGeometries (filter Q fs)) \<le> length (existingPolygonGeometries fs)"
proof -
  have "filter (\<lambda>f. isPolygonType (ftype f)) (filter Q fs)
      = filter Q (filter (\<lambda>f. isPolygonType (ftype f)) fs)"
    by (simp add: conj_commute)
  then show ?thesis
    by (simp add: existingPolygonGeometries_def del: filter_filter)
qed

lemma existing_filter_set:
  "set (existingPolygonGeometries (filter Q fs)) \<subseteq> set (existingPolygonGeometries fs)"
  by (auto simp: existingPolygonGeometries_def)

lemma existing_append_other:
  "\<not> isPolygonType t \<Longrightarrow>
   existingPolygonGeometries (fs @ [newFeature n t g]) = existingPolygonGeometries fs"
  by (simp add: existingPolygonGeometries_def newFeature_def)

lemma existing_append_polygon:
  "isPolygonType t \<Longrightarrow>
   existingPolygonGeometries (fs @ [newFeature n t g]) = existingPolygonGeometries fs @ [g]"
  by (simp add: existingPolygonGeometries_def newFeature_def)

section \<open>Lemmas on events and reachable states\<close>

lemmas handler_defs =
  handleMapClick_def handleMapDoubleClick_def handleMapMouseMove_def handleCircleClick_def
  handleRectangleClick_def handlePolygonClick_def handleLineStringClick_def
  finishPolygonOrLineString_def finishThen_def finishDrawing_def overlapConstraints_def
  existingPolygonGeometries_def doesPolygonEnclose_def doPolygonsOverlap_def
  trimPolygonOverlap_def trimBody_def largerOf_def
  toolButton_def handleToolClick_def rerender_def drawingEffect_def
  setDrawingMode_def setIsDrawing_def setMaxShapes_def addFeature_def removeFeature_def
  clearAllFeatures_def countType_def polygonCount_def newFeature_def latLngBounds_def
  extendBounds_def toCoord_def initialApp_def

lemma reachable_run: "reachable lib s \<Longrightarrow> reachable lib (run lib evs s)"
proof (induction evs arbitrary: s)
  case Nil
  then show ?case by simp
next
  case (Cons iev evs)
  obtain newId ev where iev: "iev = (newId, ev)" by (cases iev)
  show ?case
  proof (cases "handle lib newId ev s")
    case (Inl x)
    with Cons iev show ?thesis by simp
  next
    case (Inr r)
    obtain a s' where "r = (a, s')" by (cases r)
    with Inr have h: "handle lib newId ev s = Inr (a, s')" by simp
    from reachable_step [OF Cons.prems h] have "reachable lib s'" .
    from Cons.IH [OF this] h iev show ?thesis by simp
  qed
qed

lemma handleMapClick_cases:
  assumes "handleMapClick lib i p s = Inr (a, s')"
  shows "(features s' = features s \<and> mode s' = mode s \<and>
            (\<forall>l. currentShapeRef s' = Some l \<longrightarrow>
                 mode s = Some (layerType l) \<or>
                 (\<exists>l0. currentShapeRef s = Some l0 \<and> layerType l = layerType l0)))
       \<or> (\<exists>type layer g g'. mode s = Some type \<and> currentShapeRef s = Some layer
            \<and> layerGeometry lib (polygonPointsRef s) layer = Inr (Inr g)
            \<and> overlapConstraints lib type g (features s) = Inr (Inr g')
            \<and> features s' = features s @ [newFeature i type g']
            \<and> mode s' = mode s \<and> currentShapeRef s' = None)"
proof (cases "mode s")
  case None
  with assms show ?thesis by (simp add: handleMapClick_def)
next
  case (Some t)
  show ?thesis
  proof (cases t)
    case TCircle
    show ?thesis
    proof (cases "isDrawing s")
      case False
      with assms Some TCircle show ?thesis
        by (auto simp: handleMapClick_def handleCircleClick_def setIsDrawing_def split: if_splits)
    next
      case True
      show ?thesis
      proof (cases "\<exists>c r. currentShapeRef s = Some (L_Circle c r)")
        case False
        with assms Some TCircle True have "s' = setIsDrawing False s"
          by (auto simp: handleMapClick_def handleCircleClick_def split: option.splits Layer.splits)
        then show ?thesis by (auto simp: setIsDrawing_def)
      next
        case True
        then obtain c r where sh: "currentShapeRef s = Some (L_Circle c r)" by blast
        with assms Some TCircle \<open>isDrawing s\<close>
        have "finishThen (finishDrawing lib i TCircle (L_Circle c r) s) = Inr (a, s')"
          by (simp add: handleMapClick_def handleCircleClick_def)
        from finishThen_cases [OF this] Some TCircle sh show ?thesis
          by (auto simp: setIsDrawing_def addFeature_def)
      qed
    qed
  next
    case TRectangle
    show ?thesis
    proof (cases "isDrawing s")
      case False
      with assms Some TRectangle show ?thesis
        by (auto simp: handleMapClick_def handleRectangleClick_def setIsDrawing_def split: if_splits)
    next
      case True
      show ?thesis
      proof (cases "\<exists>b. currentShapeRef s = Some (L_Rectangle b)")
        case False
        with assms Some TRectangle True have "s' = setIsDrawing False s"
          by (auto simp: handleMapClick_def handleRectangleClick_def split: option.splits Layer.splits)
        then show ?thesis by (auto simp: setIsDrawing_def)
      next
        case True
        then obtain b where sh: "currentShapeRef s = Some (L_Rectangle b)" by blast
        with assms Some TRectangle \<open>isDrawing s\<close>
        have "finishThen (finishDrawing lib i TRectangle (L_Rectangle b) s) = Inr (a, s')"
          by (simp add: handleMapClick_def handleRectangleClick_def)
        from finishThen_cases [OF this] Some TRectangle sh show ?thesis
          by (auto simp: setIsDrawing_def addFeature_def)
      qed
    qed
  next
    case TPolygon
    with assms Some show ?thesis
      by (cases "currentShapeRef s"; cases "the (currentShapeRef s)")
         (auto simp: handleMapClick_def handlePolygonClick_def setIsDrawing_def split: if_splits)
  next
    case TLinestring
    with assms Some show ?thesis
      by (cases "currentShapeRef s"; cases "the (currentShapeRef s)")
         (auto simp: handleMapClick_def handleLineStringClick_def setIsDrawing_def split: if_splits)
  qed
qed

lemma handleMapDoubleClick_cases:
  assumes "handleMapDoubleClick lib i s = Inr (a, s')"
  shows "(features s' = features s \<and> mode s' = mode s \<and>
            (\<forall>l. currentShapeRef s' = Some l \<longrightarrow> currentShapeRef s = Some l))
       \<or> (\<exists>type layer g g'. mode s = Some type \<and> currentShapeRef s = Some layer
            \<and> layerGeometry lib (polygonPointsRef s) layer = Inr (Inr g)
            \<and> overlapConstraints lib type g (features s) = Inr (Inr g')
            \<and> features s' = features s @ [newFeature i type g']
            \<and> mode s' = mode s \<and> currentShapeRef s' = None)"
proof (cases "\<exists>t. mode s = Some t \<and> (t = TPolygon \<or> t = TLinestring) \<and> isDrawing s")
  case False
  with assms have "s' = s"
    by (auto simp: handleMapDoubleClick_def split: option.splits if_splits)
  then show ?thesis by simp
next
  case True
  then obtain t where t: "mode s = Some t" "t = TPolygon \<or> t = TLinestring" "isDrawing s"
    by blast
  with assms have fin: "finishPolygonOrLineString lib i t s = Inr (a, s')"
    by (auto simp: handleMapDoubleClick_def)
  show ?thesis
  proof (cases "currentShapeRef s")
    case None
    with fin have "s' = s" by (simp add: finishPolygonOrLineString_def)
    then show ?thesis by simp
  next
    case (Some layer)
    with fin have "s' = s \<or> finishThen (finishDrawing lib i t layer s) = Inr (a, s')"
      by (auto simp: finishPolygonOrLineString_def split: if_splits)
    then show ?thesis
    proof
      assume "s' = s"
      then show ?thesis by simp
    next
      assume "finishThen (finishDrawing lib i t layer s) = Inr (a, s')"
      from finishThen_cases [OF this] t(1) Some show ?thesis
        by (auto simp: setIsDrawing_def addFeature_def)
    qed
  qed
qed

lemma setLatLngs_layerType [simp]: "layerType (setLatLngs pts p l) = layerType l"
  by (cases l) simp_all

lemma handleMapMouseMove_shape:
  "features (handleMapMouseMove lib p s) = features s \<and>
   mode (handleMapMouseMove lib p s) = mode s \<and>
   (\<forall>l. currentShapeRef (handleMapMouseMove lib p s) = Some l \<longrightarrow>
      (\<exists>l0. currentShapeRef s = Some l0 \<and> layerType l = layerType l0))"
proof (cases "mode s")
  case None
  then show ?thesis by (simp add: handleMapMouseMove_def)
next
  case m: (Some t)
  show ?thesis
  proof (cases "startPointRef s")
    case None
    with m show ?thesis by (simp add: handleMapMouseMove_def)
  next
    case st: (Some start)
    show ?thesis
    proof (cases "currentShapeRef s")
      case None
      with m st show ?thesis by (cases t) (simp_all add: handleMapMouseMove_def)
    next
      case (Some l0)
      with m st show ?thesis
        by (cases t; cases l0) (simp_all add: handleMapMouseMove_def)
    qed
  qed
qed

text \<open>
  One event keeps the preview layer of the kind of the mode, and either filters the
  committed features or appends the one feature that the commit pipeline let through.
\<close>

lemma handle_step:
  assumes h: "handle lib i ev s = Inr (a, s')" and ok: "shapeMatchesMode s"
  shows "shapeMatchesMode s' \<and>
         ((\<exists>P. features s' = filter P (features s)) \<or>
          (\<exists>layer g g'. layerGeometry lib (polygonPointsRef s) layer = Inr (Inr g)
             \<and> overlapConstraints lib (layerType layer) g (features s) = Inr (Inr g')
             \<and> features s' = features s @ [newFeature i (layerType layer) g']))"
proof -
  have same: "\<exists>P. features s' = filter P (features s)" if "features s' = features s"
    using that by (intro exI [of _ "\<lambda>_. True"]) simp
  show ?thesis
  proof (cases ev)
    case (Click p)
    with h have "handleMapClick lib i p s = Inr (a, s')" by simp
    from handleMapClick_cases [OF this] ok same show ?thesis
      unfolding shapeMatchesMode_def by (elim disjE exE conjE) auto
  next
    case DblClick
    with h have "handleMapDoubleClick lib i s = Inr (a, s')" by simp
    from handleMapDoubleClick_cases [OF this] ok same show ?thesis
      unfolding shapeMatchesMode_def by (elim disjE exE conjE) auto
  next
    case (MouseMove p)
    with h have "s' = handleMapMouseMove lib p s" by simp
    with handleMapMouseMove_shape [of lib p s] ok same show ?thesis
      unfolding shapeMatchesMode_def by auto
  next
    case (ToolButton t)
    with h have "s' = toolButton t s" by simp
    with ok same show ?thesis
      unfolding shapeMatchesMode_def
      by (auto simp: toolButton_def rerender_def handleToolClick_def setDrawingMode_def
            drawingEffect_def setIsDrawing_def split: if_splits)
  next
    case (RemoveFeature j)
    with h have "s' = removeFeature j s" by simp
    with ok show ?thesis
      unfolding shapeMatchesMode_def by (auto simp: removeFeature_def)
  next
    case ClearAllFeatures
    with h have s': "s' = rerender s (clearAllFeatures s)" by simp
    have "features s' = filter (\<lambda>_. False) (features s)"
      by (simp add: s' rerender_def clearAllFeatures_def drawingEffect_def setIsDrawing_def)
    moreover from ok have "shapeMatchesMode s'"
      unfolding shapeMatchesMode_def
      by (auto simp: s' rerender_def clearAllFeatures_def drawingEffect_def setIsDrawing_def)
    ultimately show ?thesis by blast
  next
    case (SetMaxShapes t mx)
    with h have "s' = setMaxShapes t mx s" by simp
    with ok same show ?thesis
      unfolding shapeMatchesMode_def by (auto simp: setMaxShapes_def)
  qed
qed

lemma reachable_shapeMatchesMode: "reachable lib s \<Longrightarrow> shapeMatchesMode s"
proof (induction rule: reachable.induct)
  case reachable_init
  show ?case by (simp add: shapeMatchesMode_def initialApp_def)
next
  case (reachable_step s newId ev a s')
  from handle_step [OF reachable_step.hyps(2) reachable_step.IH] show ?case by simp
qed

text \<open>
  Induction over the committed features of the reachable states.
\<close>

lemma reachable_features_induct:
  assumes r: "reachable lib s"
    and init: "I []"
    and filt: "\<And>fs P. I fs \<Longrightarrow> I (filter P fs)"
    and commit: "\<And>fs pts layer g g' i. I fs \<Longrightarrow>
        layerGeometry lib pts layer = Inr (Inr g) \<Longrightarrow>
        overlapConstraints lib (layerType layer) g fs = Inr (Inr g') \<Longrightarrow>
        I (fs @ [newFeature i (layerType layer) g'])"
  shows "I (features s)"
  using r
proof (induction rule: reachable.induct)
  case reachable_init
  from init show ?case by (simp add: initialApp_def)
next
  case (reachable_step s newId ev a s')
  from handle_step [OF reachable_step.hyps(2) reachable_shapeMatchesMode [OF reachable_step.hyps(1)]]
  have "(\<exists>P. features s' = filter P (features s)) \<or>
          (\<exists>layer g g'. layerGeometry lib (polygonPointsRef s) layer = Inr (Inr g)
             \<and> overlapConstraints lib (layerType layer) g (features s) = Inr (Inr g')
             \<and> features s' = features s @ [newFeature newId (layerType layer) g'])"
    by simp
  then show ?case
  proof
    assume "\<exists>P. features s' = filter P (features s)"
    with filt [OF reachable_step.IH] show ?thesis by auto
  next
    assume "\<exists>layer g g'. layerGeometry lib (polygonPointsRef s) layer = Inr (Inr g)
             \<and> overlapConstraints lib (layerType layer) g (features s) = Inr (Inr g')
             \<and> features s' = features s @ [newFeature newId (layerType layer) g']"
    with commit [OF reachable_step.IH] show ?thesis by auto
  qed
qed

lemma reachable_no_overlap:
  assumes w: "polygon_wraps lib" and i: "intersect_exact lib R" and f: "intersect_fails_both lib"
    and d: "difference_sound lib R" and r: "reachable lib s"
  shows "sorted_wrt (\<lambda>f1 f2. isPolygonType (ftype f1) \<longrightarrow> isPolygonType (ftype f2) \<longrightarrow>
            doPolygonsOverlap lib (fgeometry f1) (fgeometry f2) = Inr False \<and>
            doPolygonsOverlap lib (fgeometry f2) (fgeometry f1) = Inr False) (features s)"
    (is "sorted_wrt ?P (features s)")
proof (rule reachable_features_induct [OF r])
  show "sorted_wrt ?P []" by simp
next
  fix fs :: "Feature list" and Q
  assume "sorted_wrt ?P fs"
  then show "sorted_wrt ?P (filter Q fs)" by (rule sorted_wrt_filter)
next
  fix fs pts layer g g' n
  assume I: "sorted_wrt ?P fs"
    and o: "overlapConstraints lib (layerType layer) g fs = Inr (Inr g')"
  have "?P x (newFeature n (layerType layer) g')" if "x \<in> set fs" for x
  proof (intro impI)
    assume px: "isPolygonType (ftype x)"
      and pn: "isPolygonType (ftype (newFeature n (layerType layer) g'))"
    from that px have "fgeometry x \<in> set (existingPolygonGeometries fs)"
      by (auto simp: existingPolygonGeometries_def)
    moreover from pn have "isPolygonType (layerType layer)" by (simp add: newFeature_def)
    ultimately show "doPolygonsOverlap lib (fgeometry x) (fgeometry (newFeature n (layerType layer) g')) = Inr False \<and>
        doPolygonsOverlap lib (fgeometry (newFeature n (layerType layer) g')) (fgeometry x) = Inr False"
      using overlapConstraints_no_overlap [OF w i f d _ o] by (simp add: newFeature_def)
  qed
  with I show "sorted_wrt ?P (fs @ [newFeature n (layerType layer) g'])"
    by (simp add: sorted_wrt_append)
qed

lemma reachable_committedShape:
  assumes c: "outputs_closed lib" and r: "reachable lib s"
  shows "\<forall>f \<in> set (features s). committedShape f"
proof (rule reachable_features_induct [OF r])
  show "\<forall>f \<in> set []. committedShape f" by simp
next
  fix fs :: "Feature list" and P
  assume "\<forall>f \<in> set fs. committedShape f"
  then show "\<forall>f \<in> set (filter P fs). committedShape f" by simp
next
  fix fs pts layer g g' i
  assume I: "\<forall>f \<in> set fs. committedShape f"
    and g: "layerGeometry lib pts layer = Inr (Inr g)"
    and o: "overlapConstraints lib (layerType layer) g fs = Inr (Inr g')"
  have "committedShape (newFeature i (layerType layer) g')"
  proof (cases "layerType layer = TLinestring")
    case True
    with o have "g' = g" by (simp add: overlapConstraints_def)
    with layerGeometry_shape [OF c g] True show ?thesis
      by (simp add: committedShape_def newFeature_def)
  next
    case False
    then have t: "isPolygonType (layerType layer)" using isPolygonType_layerType by blast
    from layerGeometry_shape [OF c g] False have "closedPolygon g" by simp
    from overlapConstraints_closed [OF c this o t] t show ?thesis
      by (simp add: committedShape_def newFeature_def)
  qed
  with I show "\<forall>f \<in> set (fs @ [newFeature i (layerType layer) g']). committedShape f" by simp
qed

text \<open>
  No committed polygon-type geometry lies inside one committed after it, and as soon as
  two are committed \<^verbatim>\<open>turf.polygon\<close> accepts them all.
\<close>

lemma reachable_enclosure_order:
  assumes w: "polygon_wraps lib" and d: "difference_sound lib R" and c: "contains_exact lib R"
    and r: "reachable lib s"
  shows "sorted_wrt (\<lambda>a b. (\<exists>ca. a = Polygon ca) \<longrightarrow> (\<exists>cb. b = Polygon cb) \<longrightarrow> \<not> R a \<subseteq> R b)
           (existingPolygonGeometries (features s))
       \<and> (2 \<le> length (existingPolygonGeometries (features s)) \<longrightarrow>
            (\<forall>e \<in> set (existingPolygonGeometries (features s)). \<exists>r. geometryToPolygon lib e = Inr r))"
    (is "?I (features s)")
proof (rule reachable_features_induct [OF r])
  show "?I []" by (simp add: existingPolygonGeometries_def)
next
  fix fs :: "Feature list" and Q
  assume I: "?I fs"
  have "existingPolygonGeometries (filter Q fs)
      = map fgeometry (filter Q (filter (\<lambda>f. isPolygonType (ftype f)) fs))"
    by (simp add: existingPolygonGeometries_def conj_commute)
  also have "\<dots> = map fgeometry (filter (\<lambda>f. isPolygonType (ftype f)) (filter Q fs))"
    by (simp add: conj_commute)
  finally have "existingPolygonGeometries (filter Q fs)
      = map fgeometry (filter Q (filter (\<lambda>f. isPolygonType (ftype f)) fs))"
    by (simp add: conj_commute)
  moreover have "sorted_wrt (\<lambda>f1 f2. (\<exists>ca. fgeometry f1 = Polygon ca) \<longrightarrow>
        (\<exists>cb. fgeometry f2 = Polygon cb) \<longrightarrow> \<not> R (fgeometry f1) \<subseteq> R (fgeometry f2))
      (filter Q (filter (\<lambda>f. isPolygonType (ftype f)) fs))"
  proof (rule sorted_wrt_filter)
    from I show "sorted_wrt (\<lambda>f1 f2. (\<exists>ca. fgeometry f1 = Polygon ca) \<longrightarrow>
        (\<exists>cb. fgeometry f2 = Polygon cb) \<longrightarrow> \<not> R (fgeometry f1) \<subseteq> R (fgeometry f2))
      (filter (\<lambda>f. isPolygonType (ftype f)) fs)"
      by (simp add: existingPolygonGeometries_def sorted_wrt_map)
  qed
  ultimately have s: "sorted_wrt (\<lambda>a b. (\<exists>ca. a = Polygon ca) \<longrightarrow> (\<exists>cb. b = Polygon cb) \<longrightarrow> \<not> R a \<subseteq> R b)
           (existingPolygonGeometries (filter Q fs))"
    by (simp add: sorted_wrt_map)
  from I existing_filter_length [of Q fs] existing_filter_set [of Q fs]
  have "2 \<le> length (existingPolygonGeometries (filter Q fs)) \<longrightarrow>
            (\<forall>e \<in> set (existingPolygonGeometries (filter Q fs)). \<exists>r. geometryToPolygon lib e = Inr r)"
    by (meson order_trans subsetD)
  with s show "?I (filter Q fs)" by simp
next
  fix fs pts layer g g' n
  assume I: "?I fs"
    and o: "overlapConstraints lib (layerType layer) g fs = Inr (Inr g')"
  let ?t = "layerType layer"
  let ?ex = "existingPolygonGeometries fs"
  show "?I (fs @ [newFeature n ?t g'])"
  proof (cases "isPolygonType ?t")
    case False
    from existing_append_other [OF False] I show ?thesis by simp
  next
    case True
    from o True have enc: "enclosureCheck lib g ?ex = Inr None"
      using overlapConstraints_past_enclosure by blast
    from o True have how: "g' = g \<or> trimPolygonOverlap lib g ?ex = Inr (Some g')"
      by (auto simp: overlapConstraints_def split: sum.splits option.splits bool.splits if_splits)
    from enc have checks: "\<forall>e \<in> set ?ex. doesPolygonEnclose lib e g = Inr False
        \<and> doesPolygonEnclose lib g e = Inr False"
      by (simp add: enclosureCheck_None)
    then have conv_e: "\<forall>e \<in> set ?ex. \<exists>r. geometryToPolygon lib e = Inr r"
      and conv_g: "?ex \<noteq> [] \<longrightarrow> (\<exists>r. geometryToPolygon lib g = Inr r)"
      using doesPolygonEnclose_InrD by (metis, metis last_in_set)
    from how have shrink: "R g' \<subseteq> R g \<and> ((\<exists>c. g' = Polygon c) \<longrightarrow> (\<exists>c. g = Polygon c))
        \<and> (?ex \<noteq> [] \<longrightarrow> (\<exists>r. geometryToPolygon lib g' = Inr r))"
    proof
      assume "g' = g"
      with conv_g show ?thesis by simp
    next
      assume "trimPolygonOverlap lib g ?ex = Inr (Some g')"
      from trimPolygonOverlap_shrinks [OF w d this] show ?thesis
        by (cases g) auto
    qed
    have notin: "\<not> R e \<subseteq> R g'" if e: "e \<in> set ?ex" and pe: "\<exists>ce. e = Polygon ce"
      and pg: "\<exists>cg. g' = Polygon cg" for e
    proof -
      from shrink pg have gp: "\<exists>c. g = Polygon c" by blast
      from e have ne: "?ex \<noteq> []" by auto
      with conv_g obtain rg where rg: "geometryToPolygon lib g = Inr rg" by blast
      from conv_e e obtain re where re: "geometryToPolygon lib e = Inr re" by blast
      from geometryToPolygon_Some_iff [OF w rg] gp have rg': "geometryToPolygon lib g = Inr (Some g)"
        using rg by simp
      from geometryToPolygon_Some_iff [OF w re] pe have re': "geometryToPolygon lib e = Inr (Some e)"
        using re by simp
      from doesPolygonEnclose_exact [OF w c rg' re'] checks e have "\<not> R e \<subseteq> R g" by simp
      with shrink show ?thesis by blast
    qed
    from I notin have s: "sorted_wrt (\<lambda>a b. (\<exists>ca. a = Polygon ca) \<longrightarrow> (\<exists>cb. b = Polygon cb) \<longrightarrow> \<not> R a \<subseteq> R b)
           (?ex @ [g'])"
      by (simp add: sorted_wrt_append)
    have "\<forall>e \<in> set (?ex @ [g']). \<exists>r. geometryToPolygon lib e = Inr r" if "2 \<le> length (?ex @ [g'])"
    proof -
      from that have "?ex \<noteq> []" by auto
      with shrink conv_e show ?thesis by auto
    qed
    with s existing_append_polygon [OF True] show ?thesis by simp
  qed
qed

section \<open>The claims\<close>

subsection \<open>C1: committed polygon-type features never overlap\<close>

text \<open>
  C1. With a library that is exact for a region semantics \<open>R\<close> (\<^verbatim>\<open>turf.polygon\<close> wraps
  its argument, \<^verbatim>\<open>turf.intersect\<close> returns \<^verbatim>\<open>null\<close> exactly for disjoint regions and fails
  for a pair in both orders or in none, the parts of a difference lie in the first region
  and outside the second), in every reachable state \<^verbatim>\<open>doPolygonsOverlap\<close> returns false
  for any two distinct committed polygon-type features, in either order. A line string
  passes the overlap constraints unchanged, whatever is committed.
\<close>

theorem committed_polygons_never_overlap:
  assumes "polygon_wraps lib" and "intersect_exact lib R" and "intersect_fails_both lib"
    and "difference_sound lib R"
    and "reachable lib s"
    and "i < j" and "j < length (features s)"
    and "isPolygonType (ftype (features s ! i))" and "isPolygonType (ftype (features s ! j))"
  shows "doPolygonsOverlap lib (fgeometry (features s ! i)) (fgeometry (features s ! j)) = Inr False
       \<and> doPolygonsOverlap lib (fgeometry (features s ! j)) (fgeometry (features s ! i)) = Inr False
       \<and> overlapConstraints lib TLinestring g (features s) = Inr (Inr g)"
proof -
  from reachable_no_overlap [OF assms(1-5)] assms(6-9)
  have "doPolygonsOverlap lib (fgeometry (features s ! i)) (fgeometry (features s ! j)) = Inr False
       \<and> doPolygonsOverlap lib (fgeometry (features s ! j)) (fgeometry (features s ! i)) = Inr False"
    by (simp only: sorted_wrt_iff_nth_less)
  then show ?thesis by (simp add: overlapConstraints_def)
qed

theorem committed_polygons_never_overlap_witness:
  "polygon_wraps boxlib \<and> intersect_exact boxlib region \<and> intersect_fails_both boxlib
   \<and> difference_sound boxlib region
   \<and> reachable boxlib
       (run boxlib
          [(''a'', ToolButton TRectangle), (''b'', Click \<lparr>lat = 0, lng = 0\<rparr>),
           (''c'', MouseMove \<lparr>lat = 4, lng = 4\<rparr>), (''f1'', Click \<lparr>lat = 4, lng = 4\<rparr>),
           (''d'', Click \<lparr>lat = 1, lng = 2\<rparr>), (''e'', MouseMove \<lparr>lat = 3, lng = 6\<rparr>),
           (''f2'', Click \<lparr>lat = 3, lng = 6\<rparr>)] initialApp)
   \<and> features
       (run boxlib
          [(''a'', ToolButton TRectangle), (''b'', Click \<lparr>lat = 0, lng = 0\<rparr>),
           (''c'', MouseMove \<lparr>lat = 4, lng = 4\<rparr>), (''f1'', Click \<lparr>lat = 4, lng = 4\<rparr>),
           (''d'', Click \<lparr>lat = 1, lng = 2\<rparr>), (''e'', MouseMove \<lparr>lat = 3, lng = 6\<rparr>),
           (''f2'', Click \<lparr>lat = 3, lng = 6\<rparr>)] initialApp)
     = [newFeature ''f1'' TRectangle (Polygon [[[0, 0], [4, 0], [4, 4], [0, 4], [0, 0]]]),
        newFeature ''f2'' TRectangle (Polygon [[[4, 1], [6, 1], [6, 3], [4, 3], [4, 1]]])]
   \<and> doPolygonsOverlap boxlib (Polygon [[[0, 0], [4, 0], [4, 4], [0, 4], [0, 0]]])
       (Polygon [[[4, 1], [6, 1], [6, 3], [4, 3], [4, 1]]]) = Inr False
   \<and> doPolygonsOverlap boxlib (Polygon [[[4, 1], [6, 1], [6, 3], [4, 3], [4, 1]]])
       (Polygon [[[0, 0], [4, 0], [4, 4], [0, 4], [0, 0]]]) = Inr False
   \<and> doPolygonsOverlap boxlib (Polygon [[[2, 1], [6, 1], [6, 3], [2, 3], [2, 1]]])
       (Polygon [[[0, 0], [4, 0], [4, 4], [0, 4], [0, 0]]]) = Inr True"
proof -
  let ?s = "run boxlib
          [(''a'', ToolButton TRectangle), (''b'', Click \<lparr>lat = 0, lng = 0\<rparr>),
           (''c'', MouseMove \<lparr>lat = 4, lng = 4\<rparr>), (''f1'', Click \<lparr>lat = 4, lng = 4\<rparr>),
           (''d'', Click \<lparr>lat = 1, lng = 2\<rparr>), (''e'', MouseMove \<lparr>lat = 3, lng = 6\<rparr>),
           (''f2'', Click \<lparr>lat = 3, lng = 6\<rparr>)] initialApp"
  have r: "reachable boxlib ?s"
    by (rule reachable_run) (rule reachable_init)
  have fs: "features ?s
     = [newFeature ''f1'' TRectangle (Polygon [[[0, 0], [4, 0], [4, 4], [0, 4], [0, 0]]]),
        newFeature ''f2'' TRectangle (Polygon [[[4, 1], [6, 1], [6, 3], [4, 3], [4, 1]]])]"
    by (simp add: handler_defs boxlib_eval)
  have ij: "(0::nat) < 1" "1 < length (features ?s)"
    "isPolygonType (ftype (features ?s ! 0))" "isPolygonType (ftype (features ?s ! 1))"
    unfolding fs by (simp_all add: newFeature_def)
  have before: "doPolygonsOverlap boxlib (Polygon [[[2, 1], [6, 1], [6, 3], [2, 3], [2, 1]]])
       (Polygon [[[0, 0], [4, 0], [4, 4], [0, 4], [0, 0]]]) = Inr True"
    by (simp add: doPolygonsOverlap_def boxlib_eval)
  from committed_polygons_never_overlap
    [OF boxlib_polygon_wraps boxlib_intersect_exact boxlib_intersect_fails_both
        boxlib_difference_sound r ij]
  have "doPolygonsOverlap boxlib (fgeometry (features ?s ! 0)) (fgeometry (features ?s ! 1)) = Inr False
      \<and> doPolygonsOverlap boxlib (fgeometry (features ?s ! 1)) (fgeometry (features ?s ! 0)) = Inr False"
    by blast
  then have "doPolygonsOverlap boxlib (Polygon [[[0, 0], [4, 0], [4, 4], [0, 4], [0, 0]]])
       (Polygon [[[4, 1], [6, 1], [6, 3], [4, 3], [4, 1]]]) = Inr False
   \<and> doPolygonsOverlap boxlib (Polygon [[[4, 1], [6, 1], [6, 3], [4, 3], [4, 1]]])
       (Polygon [[[0, 0], [4, 0], [4, 4], [0, 4], [0, 0]]]) = Inr False"
    unfolding fs by (simp add: newFeature_def)
  with boxlib_polygon_wraps boxlib_intersect_exact boxlib_intersect_fails_both
    boxlib_difference_sound r fs before
  show ?thesis by blast
qed

subsection \<open>C2: exceptions of the library\<close>

text \<open>
  C2. A ring of three positions makes \<^verbatim>\<open>turf.polygon\<close> throw. The conversion of either
  argument of \<^verbatim>\<open>doPolygonsOverlap\<close> and \<^verbatim>\<open>doesPolygonEnclose\<close>, and of the candidate
  of \<^verbatim>\<open>trimPolygonOverlap\<close>, runs outside the \<^verbatim>\<open>try\<close>, so the exception leaves the
  function; the same ring among the existing geometries is converted inside the
  \<^verbatim>\<open>try\<close> and gives \<^verbatim>\<open>null\<close>.
\<close>

theorem conversion_exception_propagates:
  "doPolygonsOverlap boxlib (Polygon [[[0, 0], [1, 1], [0, 0]]])
     (Polygon [[[0, 0], [1, 0], [1, 1], [0, 1], [0, 0]]])
   = Inl (Error ''Each LinearRing of a Polygon must have 4 or more Positions.'')
   \<and> doesPolygonEnclose boxlib (Polygon [[[0, 0], [1, 0], [1, 1], [0, 1], [0, 0]]])
       (Polygon [[[0, 0], [1, 1], [0, 0]]])
     = Inl (Error ''Each LinearRing of a Polygon must have 4 or more Positions.'')
   \<and> trimPolygonOverlap boxlib (Polygon [[[0, 0], [1, 1], [0, 0]]]) []
     = Inl (Error ''Each LinearRing of a Polygon must have 4 or more Positions.'')
   \<and> trimPolygonOverlap boxlib (Polygon [[[0, 0], [1, 0], [1, 1], [0, 1], [0, 0]]])
       [Polygon [[[0, 0], [1, 1], [0, 0]]]]
     = Inr None"
  by (simp add: doPolygonsOverlap_def doesPolygonEnclose_def trimPolygonOverlap_def trimBody_def
        boxlib_eval)

subsection \<open>C3: order of the commit pipeline\<close>



subsection \<open>C4: area floor of the trim\<close>




subsection \<open>C5: multi-part results of the trim\<close>

text \<open>
  C5, as stated, fails: the parts are compared by what \<^verbatim>\<open>turf.area\<close> returns, not by
  planar area. A slab cut out of a box south of the equator leaves two parts of planar
  area 1; the second lies nearer the equator, measures more square metres, and is the one
  the loop continues with.
\<close>

theorem multipart_keeps_first_largest_counterexample:
  "turf_difference spherelib (Polygon [[[0, - 3], [1, - 3], [1, 0], [0, 0], [0, - 3]]])
     (Polygon [[[0, - 2], [1, - 2], [1, - 1], [0, - 1], [0, - 2]]])
   = Inr (Some (MultiPolygon
       [[[[0, - 3], [1, - 3], [1, - 2], [0, - 2], [0, - 3]]],
        [[[0, - 1], [1, - 1], [1, 0], [0, 0], [0, - 1]]]]))
   \<and> planarArea (Polygon [[[0, - 3], [1, - 3], [1, - 2], [0, - 2], [0, - 3]]]) = 1
   \<and> planarArea (Polygon [[[0, - 1], [1, - 1], [1, 0], [0, 0], [0, - 1]]]) = 1
   \<and> trimLoop spherelib (Polygon [[[0, - 3], [1, - 3], [1, 0], [0, 0], [0, - 3]]])
       [Polygon [[[0, - 2], [1, - 2], [1, - 1], [0, - 1], [0, - 2]]]]
     = Inr (Some (Polygon [[[0, - 1], [1, - 1], [1, 0], [0, 0], [0, - 1]]]))"
  by (simp add: spherelib_eval planar_eval largerOf_def)

text \<open>
  C5, amended. When \<^verbatim>\<open>turf.difference\<close> yields a MultiPolygon whose parts are built and
  measured without an exception, the loop continues with the part \<open>l\<close> chosen by the
  reduce: among the areas \<^verbatim>\<open>turf.area\<close> returns, every part before \<open>l\<close> has a strictly
  smaller one and every part after it one that is not larger, so \<open>l\<close> is the first part of
  largest measured area; the other parts are dropped.
\<close>

theorem multipart_keeps_first_largest:
  assumes "geometryToPolygon lib e = Inr (Some ep)"
    and "turf_intersect lib cur ep = Inr (Some iv)"
    and "turf_difference lib cur ep = Inr (Some (MultiPolygon css))"
    and "mapPolygon lib css = Inr ps"
    and "largest lib ps = Inr l"
  shows "trimLoop lib cur (e # rest) = trimLoop lib l rest \<and>
         (\<exists>us vs. ps = us @ l # vs \<and>
            ((us = [] \<and> vs = []) \<or>
             (\<exists>al. turf_area lib l = Inr al
                \<and> (\<forall>u \<in> set us. \<exists>a. turf_area lib u = Inr a \<and> a < al)
                \<and> (\<forall>v \<in> set vs. \<exists>a. turf_area lib v = Inr a \<and> a \<le> al))))"
  using assms largest_first_max [OF assms(5)] by simp

theorem multipart_keeps_first_largest_witness:
  "trimLoop boxlib (Polygon [[[0, 0], [3, 0], [3, 1], [0, 1], [0, 0]]])
     [Polygon [[[1, 0], [2, 0], [2, 1], [1, 1], [1, 0]]]]
   = Inr (Some (Polygon [[[0, 0], [1, 0], [1, 1], [0, 1], [0, 0]]]))
   \<and> turf_difference boxlib (Polygon [[[0, 0], [3, 0], [3, 1], [0, 1], [0, 0]]])
       (Polygon [[[1, 0], [2, 0], [2, 1], [1, 1], [1, 0]]])
     = Inr (Some (MultiPolygon
         [[[[0, 0], [1, 0], [1, 1], [0, 1], [0, 0]]], [[[2, 0], [3, 0], [3, 1], [2, 1], [2, 0]]]]))
   \<and> turf_area boxlib (Polygon [[[0, 0], [1, 0], [1, 1], [0, 1], [0, 0]]]) = Inr 1
   \<and> turf_area boxlib (Polygon [[[2, 0], [3, 0], [3, 1], [2, 1], [2, 0]]]) = Inr 1"
  using multipart_keeps_first_largest
    [of boxlib "Polygon [[[1, 0], [2, 0], [2, 1], [1, 1], [1, 0]]]"
        "Polygon [[[1, 0], [2, 0], [2, 1], [1, 1], [1, 0]]]"
        "Polygon [[[0, 0], [3, 0], [3, 1], [0, 1], [0, 0]]]"
        "Polygon [[[1, 0], [2, 0], [2, 1], [1, 1], [1, 0]]]"
        "[[[[0, 0], [1, 0], [1, 1], [0, 1], [0, 0]]], [[[2, 0], [3, 0], [3, 1], [2, 1], [2, 0]]]]"
        "[Polygon [[[0, 0], [1, 0], [1, 1], [0, 1], [0, 0]]],
          Polygon [[[2, 0], [3, 0], [3, 1], [2, 1], [2, 0]]]]"
        "Polygon [[[0, 0], [1, 0], [1, 1], [0, 1], [0, 0]]]" "[]"]
  by (simp add: boxlib_eval largerOf_def)

subsection \<open>C6: capacity gate\<close>

text \<open>
  C6. A click that would start a draw (\<open>isDrawing\<close> is false) in mode \<open>t\<close> compares the
  configured maximum of \<open>t\<close> with a count of committed features: for polygon the count of
  all polygon, rectangle and circle features, for the other three modes the count of
  features of that type alone. At or above the maximum the click only raises the limit
  alert and leaves the whole state, the mode included, as it was; below it the draw starts.
\<close>

theorem capacity_gate:
  assumes "\<not> isDrawing s" and "mode s = Some t"
  shows "if maxShapes s t \<le>
            (if t = TPolygon
             then int (length (filter (\<lambda>f. isPolygonType (ftype f)) (features s)))
             else int (length (filter (\<lambda>f. ftype f = t) (features s))))
         then handleMapClick lib newId latlng s =
                Inr (Some (case t of
                             TPolygon \<Rightarrow> MaxPolygons (maxShapes s t)
                           | TRectangle \<Rightarrow> MaxRectangles (maxShapes s t)
                           | TCircle \<Rightarrow> MaxCircles (maxShapes s t)
                           | TLinestring \<Rightarrow> MaxLineStrings (maxShapes s t)), s)
         else (\<exists>s'. handleMapClick lib newId latlng s = Inr (None, s') \<and> isDrawing s'
                    \<and> mode s' = Some t \<and> features s' = features s)"
  using assms
  by (cases t)
     (simp_all add: handleMapClick_def handleCircleClick_def handleRectangleClick_def
        handlePolygonClick_def handleLineStringClick_def countType_def polygonCount_def
        setIsDrawing_def)

theorem capacity_gate_witness:
  "handleMapClick boxlib ''f2'' \<lparr>lat = 0, lng = 0\<rparr>
     (initialApp\<lparr>features := [newFeature ''f1'' TCircle (Polygon [[[0, 0], [1, 0], [1, 1], [0, 1], [0, 0]]])],
                  mode := Some TPolygon, maxShapes := (\<lambda>t. 1)\<rparr>)
   = Inr (Some (MaxPolygons 1),
       initialApp\<lparr>features := [newFeature ''f1'' TCircle (Polygon [[[0, 0], [1, 0], [1, 1], [0, 1], [0, 0]]])],
                  mode := Some TPolygon, maxShapes := (\<lambda>t. 1)\<rparr>)
   \<and> (\<exists>s'. handleMapClick boxlib ''f2'' \<lparr>lat = 0, lng = 0\<rparr>
          (initialApp\<lparr>features := [newFeature ''f1'' TCircle (Polygon [[[0, 0], [1, 0], [1, 1], [0, 1], [0, 0]]])],
                  mode := Some TRectangle, maxShapes := (\<lambda>t. 1)\<rparr>) = Inr (None, s')
        \<and> isDrawing s')"
  using capacity_gate
    [of "initialApp\<lparr>features := [newFeature ''f1'' TCircle (Polygon [[[0, 0], [1, 0], [1, 1], [0, 1], [0, 0]]])],
                  mode := Some TPolygon, maxShapes := (\<lambda>t. 1)\<rparr>" TPolygon boxlib "''f2''"
        "\<lparr>lat = 0, lng = 0\<rparr>"]
    capacity_gate
    [of "initialApp\<lparr>features := [newFeature ''f1'' TCircle (Polygon [[[0, 0], [1, 0], [1, 1], [0, 1], [0, 0]]])],
                  mode := Some TRectangle, maxShapes := (\<lambda>t. 1)\<rparr>" TRectangle boxlib "''f2''"
        "\<lparr>lat = 0, lng = 0\<rparr>"]
  by (auto simp add: initialApp_def newFeature_def)

subsection \<open>C7: trim against no geometry\<close>

text \<open>
  C7, as stated, fails: the degenerate rectangle that two clicks on the same point produce
  has area 0, and trimming it against no geometry at all returns \<^verbatim>\<open>null\<close>.
\<close>

theorem trim_empty_existing_counterexample:
  "trimPolygonOverlap boxlib (Polygon [[[0, 0], [0, 0], [0, 0], [0, 0], [0, 0]]]) [] = Inr None"
  by (simp add: trimPolygonOverlap_def trimBody_def boxlib_eval)

text \<open>
  C7, amended. For a candidate polygon that \<^verbatim>\<open>turf.polygon\<close> accepts and
  \<^verbatim>\<open>turf.area\<close> measures, trimming against an empty list returns the candidate's
  geometry unchanged when its area is at least 0.0001, and \<^verbatim>\<open>null\<close> when it is below.
\<close>

theorem trim_empty_existing:
  assumes "polygon_wraps lib" and "turf_polygon lib cs = Inr g"
    and "turf_area lib (Polygon cs) = Inr a"
  shows "trimPolygonOverlap lib (Polygon cs) [] =
           (if a < 0.0001 then Inr None else Inr (Some (Polygon cs)))"
proof -
  from assms(1,2) have "g = Polygon cs" by (simp add: polygon_wraps_def)
  with assms show ?thesis by (simp add: trimPolygonOverlap_def trimBody_def)
qed

theorem trim_empty_existing_witness:
  "polygon_wraps boxlib
   \<and> turf_polygon boxlib [[[0, 0], [1, 0], [1, 1], [0, 1], [0, 0]]]
       = Inr (Polygon [[[0, 0], [1, 0], [1, 1], [0, 1], [0, 0]]])
   \<and> turf_area boxlib (Polygon [[[0, 0], [1, 0], [1, 1], [0, 1], [0, 0]]]) = Inr 1
   \<and> trimPolygonOverlap boxlib (Polygon [[[0, 0], [1, 0], [1, 1], [0, 1], [0, 0]]]) []
       = Inr (Some (Polygon [[[0, 0], [1, 0], [1, 1], [0, 1], [0, 0]]]))"
  using trim_empty_existing
    [OF boxlib_polygon_wraps, of "[[[0, 0], [1, 0], [1, 1], [0, 1], [0, 0]]]"
       "Polygon [[[0, 0], [1, 0], [1, 1], [0, 1], [0, 0]]]" 1]
    boxlib_polygon_wraps
  by (simp add: boxlib_eval)

subsection \<open>C8: shape of committed geometry\<close>

text \<open>
  C8, as stated, fails: three clicks on one point and a double click commit a polygon
  whose ring is that point four times, a ring with a single distinct vertex.
\<close>

theorem committed_geometry_shape_counterexample:
  "reachable boxlib
     (run boxlib
        [(''a'', ToolButton TPolygon), (''b'', Click \<lparr>lat = 0, lng = 0\<rparr>),
         (''c'', Click \<lparr>lat = 0, lng = 0\<rparr>), (''d'', Click \<lparr>lat = 0, lng = 0\<rparr>),
         (''f1'', DblClick)] initialApp)
   \<and> features (run boxlib
        [(''a'', ToolButton TPolygon), (''b'', Click \<lparr>lat = 0, lng = 0\<rparr>),
         (''c'', Click \<lparr>lat = 0, lng = 0\<rparr>), (''d'', Click \<lparr>lat = 0, lng = 0\<rparr>),
         (''f1'', DblClick)] initialApp)
     = [newFeature ''f1'' TPolygon (Polygon [[[0, 0], [0, 0], [0, 0], [0, 0]]])]
   \<and> \<not> 3 \<le> card (set [[0, 0], [0, 0], [0, 0], [0, 0 :: real]])"
proof -
  have "reachable boxlib initialApp" by (rule reachable_init)
  then have "reachable boxlib
     (run boxlib
        [(''a'', ToolButton TPolygon), (''b'', Click \<lparr>lat = 0, lng = 0\<rparr>),
         (''c'', Click \<lparr>lat = 0, lng = 0\<rparr>), (''d'', Click \<lparr>lat = 0, lng = 0\<rparr>),
         (''f1'', DblClick)] initialApp)"
    by (rule reachable_run)
  then show ?thesis by (simp add: handler_defs)
qed

text \<open>
  C8, amended. With a library whose polygon, difference and circle results are polygons of
  closed rings, in every reachable state every ring of a committed polygon-type feature is
  closed and has at least four positions (three vertices, which need not be distinct, and
  the closing one), and every committed line string has at least two positions.
\<close>

theorem committed_geometry_shape:
  assumes "outputs_closed lib" and "reachable lib s" and "f \<in> set (features s)"
  shows "(isPolygonType (ftype f) \<longrightarrow>
            (\<exists>cs. fgeometry f = Polygon cs \<and> (\<forall>r \<in> set cs. 4 \<le> length r \<and> hd r = last r)))
       \<and> (ftype f = TLinestring \<longrightarrow> (\<exists>ps. fgeometry f = LineString ps \<and> 2 \<le> length ps))"
proof -
  from reachable_committedShape [OF assms(1,2)] assms(3) have "committedShape f" by blast
  then show ?thesis
    by (cases "fgeometry f") (auto simp: committedShape_def closedRing_def list_all_iff)
qed

theorem committed_geometry_shape_witness:
  "outputs_closed boxlib
   \<and> reachable boxlib
       (run boxlib
          [(''a'', ToolButton TRectangle), (''b'', Click \<lparr>lat = 0, lng = 0\<rparr>),
           (''c'', MouseMove \<lparr>lat = 4, lng = 4\<rparr>), (''f1'', Click \<lparr>lat = 4, lng = 4\<rparr>),
           (''d'', ToolButton TLinestring), (''e'', Click \<lparr>lat = 1, lng = 1\<rparr>),
           (''f'', Click \<lparr>lat = 5, lng = 5\<rparr>), (''f2'', DblClick)] initialApp)
   \<and> features
       (run boxlib
          [(''a'', ToolButton TRectangle), (''b'', Click \<lparr>lat = 0, lng = 0\<rparr>),
           (''c'', MouseMove \<lparr>lat = 4, lng = 4\<rparr>), (''f1'', Click \<lparr>lat = 4, lng = 4\<rparr>),
           (''d'', ToolButton TLinestring), (''e'', Click \<lparr>lat = 1, lng = 1\<rparr>),
           (''f'', Click \<lparr>lat = 5, lng = 5\<rparr>), (''f2'', DblClick)] initialApp)
     = [newFeature ''f1'' TRectangle (Polygon [[[0, 0], [4, 0], [4, 4], [0, 4], [0, 0]]]),
        newFeature ''f2'' TLinestring (LineString [[1, 1], [5, 5]])]
   \<and> (\<exists>cs. Polygon [[[0, 0], [4, 0], [4, 4], [0, 4], [0, 0 :: real]]] = Polygon cs
          \<and> (\<forall>r \<in> set cs. 4 \<le> length r \<and> hd r = last r))
   \<and> (\<exists>ps. LineString [[1, 1], [5, 5 :: real]] = LineString ps \<and> 2 \<le> length ps)"
proof -
  let ?s = "run boxlib
          [(''a'', ToolButton TRectangle), (''b'', Click \<lparr>lat = 0, lng = 0\<rparr>),
           (''c'', MouseMove \<lparr>lat = 4, lng = 4\<rparr>), (''f1'', Click \<lparr>lat = 4, lng = 4\<rparr>),
           (''d'', ToolButton TLinestring), (''e'', Click \<lparr>lat = 1, lng = 1\<rparr>),
           (''f'', Click \<lparr>lat = 5, lng = 5\<rparr>), (''f2'', DblClick)] initialApp"
  have r: "reachable boxlib ?s"
    by (rule reachable_run) (rule reachable_init)
  have fs: "features ?s
     = [newFeature ''f1'' TRectangle (Polygon [[[0, 0], [4, 0], [4, 4], [0, 4], [0, 0]]]),
        newFeature ''f2'' TLinestring (LineString [[1, 1], [5, 5]])]"
    by (simp add: handler_defs boxlib_eval)
  have m1: "newFeature ''f1'' TRectangle (Polygon [[[0, 0], [4, 0], [4, 4], [0, 4], [0, 0]]])
      \<in> set (features ?s)"
    and m2: "newFeature ''f2'' TLinestring (LineString [[1, 1], [5, 5]]) \<in> set (features ?s)"
    by (simp_all only: fs list.set insert_iff simp_thms)
  from committed_geometry_shape [OF boxlib_outputs_closed r m1]
    committed_geometry_shape [OF boxlib_outputs_closed r m2]
    boxlib_outputs_closed r fs
  show ?thesis by (simp add: newFeature_def)
qed

subsection \<open>C9: a mode change cancels the session\<close>

text \<open>
  C9. When the mode has changed, the effect clears the provisional shape, the anchor point
  and the point list and sets \<open>isDrawing\<close> to false; it never touches the committed features.
  The same holds for a click on a toolbar button, which selects or deselects a mode.
\<close>

theorem mode_change_resets_session:
  "features (rerender old new) = features new \<and>
   maxShapes (rerender old new) = maxShapes new \<and>
   mode (rerender old new) = mode new \<and>
   (mode new \<noteq> mode old \<longrightarrow>
      currentShapeRef (rerender old new) = None \<and> startPointRef (rerender old new) = None \<and>
      polygonPointsRef (rerender old new) = [] \<and> \<not> isDrawing (rerender old new)) \<and>
   features (toolButton t s) = features s \<and>
   (mode (toolButton t s) \<noteq> mode s \<longrightarrow>
      currentShapeRef (toolButton t s) = None \<and> startPointRef (toolButton t s) = None \<and>
      polygonPointsRef (toolButton t s) = [] \<and> \<not> isDrawing (toolButton t s))"
  by (simp add: toolButton_def rerender_def handleToolClick_def setDrawingMode_def
        drawingEffect_def setIsDrawing_def)

theorem mode_change_resets_session_witness:
  "mode (toolButton TCircle
      (initialApp\<lparr>mode := Some TPolygon, isDrawing := True,
         currentShapeRef := Some (L_Polygon [\<lparr>lat = 0, lng = 0\<rparr>]),
         polygonPointsRef := [\<lparr>lat = 0, lng = 0\<rparr>]\<rparr>)) = Some TCircle
   \<and> polygonPointsRef (toolButton TCircle
      (initialApp\<lparr>mode := Some TPolygon, isDrawing := True,
         currentShapeRef := Some (L_Polygon [\<lparr>lat = 0, lng = 0\<rparr>]),
         polygonPointsRef := [\<lparr>lat = 0, lng = 0\<rparr>]\<rparr>)) = []
   \<and> \<not> isDrawing (toolButton TCircle
      (initialApp\<lparr>mode := Some TPolygon, isDrawing := True,
         currentShapeRef := Some (L_Polygon [\<lparr>lat = 0, lng = 0\<rparr>]),
         polygonPointsRef := [\<lparr>lat = 0, lng = 0\<rparr>]\<rparr>))"
proof -
  let ?s = "initialApp\<lparr>mode := Some TPolygon, isDrawing := True,
         currentShapeRef := Some (L_Polygon [\<lparr>lat = 0, lng = 0\<rparr>]),
         polygonPointsRef := [\<lparr>lat = 0, lng = 0\<rparr>]\<rparr>"
  have m: "mode (toolButton TCircle ?s) = Some TCircle"
    by (simp add: toolButton_def rerender_def handleToolClick_def setDrawingMode_def
          drawingEffect_def setIsDrawing_def initialApp_def countType_def)
  then have "mode (toolButton TCircle ?s) \<noteq> mode ?s" by simp
  with mode_change_resets_session [of ?s "handleToolClick TCircle ?s" TCircle ?s] m
  show ?thesis by simp
qed

subsection \<open>C10: a coincident candidate\<close>

text \<open>
  C10. With a library that is exact for a region semantics \<open>R\<close>, in every reachable state a
  polygon-type candidate that a committed polygon-type geometry encloses and that encloses
  it in turn is rejected with "would be enclosed": the enclosure loop ends with that
  reason, so neither the overlap loop nor the trim is run, and the state is unchanged.
\<close>

theorem coincident_candidate_would_be_enclosed:
  assumes w: "polygon_wraps lib" and d: "difference_sound lib R" and c: "contains_exact lib R"
    and r: "reachable lib s"
    and t: "isPolygonType type"
    and g: "layerGeometry lib (polygonPointsRef s) layer = Inr (Inr g)"
    and e: "e \<in> set (existingPolygonGeometries (features s))"
    and eg: "doesPolygonEnclose lib e g = Inr True"
    and ge: "doesPolygonEnclose lib g e = Inr True"
  shows "enclosureCheck lib g (existingPolygonGeometries (features s)) = Inr (Some WouldBeEnclosed)
       \<and> finishDrawing lib newId type layer s = Inr (Some WouldBeEnclosed, s)"
proof -
  let ?ex = "existingPolygonGeometries (features s)"
  from split_list [OF e] obtain us vs where ex: "?ex = us @ e # vs" by blast
  note inv = reachable_enclosure_order [OF w d c r]
  from doesPolygonEnclose_TrueD [OF eg] obtain pe pg
    where pe: "geometryToPolygon lib e = Inr (Some pe)"
      and pg: "geometryToPolygon lib g = Inr (Some pg)"
    by blast
  from doesPolygonEnclose_exact [OF w c pe pg] eg doesPolygonEnclose_exact [OF w c pg pe] ge
  have eq: "R g = R e" by auto
  from pe have epoly: "\<exists>ce. e = Polygon ce" by (cases e) auto
  have "(\<exists>r. geometryToPolygon lib u = Inr r) \<and> doesPolygonEnclose lib g u \<noteq> Inr True"
    if u: "u \<in> set us" for u
  proof
    from u ex have "2 \<le> length ?ex" by (cases us) auto
    moreover from u ex have "u \<in> set ?ex" by simp
    ultimately show "\<exists>r. geometryToPolygon lib u = Inr r" using inv by blast
  next
    show "doesPolygonEnclose lib g u \<noteq> Inr True"
    proof
      assume gu: "doesPolygonEnclose lib g u = Inr True"
      from doesPolygonEnclose_TrueD [OF gu] obtain pu
        where pu: "geometryToPolygon lib u = Inr (Some pu)" by blast
      from doesPolygonEnclose_exact [OF w c pg pu] gu have "R u \<subseteq> R g" by simp
      with eq have sub: "R u \<subseteq> R e" by simp
      from pu have upoly: "\<exists>cu. u = Polygon cu" by (cases u) auto
      from inv ex have "sorted_wrt (\<lambda>a b. (\<exists>ca. a = Polygon ca) \<longrightarrow> (\<exists>cb. b = Polygon cb) \<longrightarrow> \<not> R a \<subseteq> R b)
           (us @ e # vs)"
        by simp
      with u have "(\<exists>ca. u = Polygon ca) \<longrightarrow> (\<exists>cb. e = Polygon cb) \<longrightarrow> \<not> R u \<subseteq> R e"
        by (simp add: sorted_wrt_append)
      with upoly epoly sub show False by blast
    qed
  qed
  then have "enclosureCheck lib g (us @ e # vs) = Inr (Some WouldBeEnclosed)"
    using enclosureCheck_first_enclosed [OF _ pg eg] by blast
  with ex have enc: "enclosureCheck lib g ?ex = Inr (Some WouldBeEnclosed)" by simp
  with t g have "finishDrawing lib newId type layer s = Inr (Some WouldBeEnclosed, s)"
    by (simp add: finishDrawing_def overlapConstraints_def)
  with enc show ?thesis by simp
qed

theorem coincident_candidate_would_be_enclosed_witness:
  "polygon_wraps boxlib \<and> difference_sound boxlib region \<and> contains_exact boxlib region
   \<and> reachable boxlib
       (run boxlib
          [(''a'', ToolButton TRectangle), (''b'', Click \<lparr>lat = 0, lng = 0\<rparr>),
           (''c'', MouseMove \<lparr>lat = 4, lng = 4\<rparr>), (''f1'', Click \<lparr>lat = 4, lng = 4\<rparr>)]
          initialApp)
   \<and> isPolygonType TRectangle
   \<and> layerGeometry boxlib [] (L_Rectangle \<lparr>south = 0, west = 0, north = 4, east = 4\<rparr>)
       = Inr (Inr (Polygon [[[0, 0], [4, 0], [4, 4], [0, 4], [0, 0]]]))
   \<and> existingPolygonGeometries (features
       (run boxlib
          [(''a'', ToolButton TRectangle), (''b'', Click \<lparr>lat = 0, lng = 0\<rparr>),
           (''c'', MouseMove \<lparr>lat = 4, lng = 4\<rparr>), (''f1'', Click \<lparr>lat = 4, lng = 4\<rparr>)]
          initialApp))
       = [Polygon [[[0, 0], [4, 0], [4, 4], [0, 4], [0, 0]]]]
   \<and> doesPolygonEnclose boxlib (Polygon [[[0, 0], [4, 0], [4, 4], [0, 4], [0, 0]]])
        (Polygon [[[0, 0], [4, 0], [4, 4], [0, 4], [0, 0]]]) = Inr True
   \<and> finishDrawing boxlib ''f2'' TRectangle
        (L_Rectangle \<lparr>south = 0, west = 0, north = 4, east = 4\<rparr>)
        (run boxlib
          [(''a'', ToolButton TRectangle), (''b'', Click \<lparr>lat = 0, lng = 0\<rparr>),
           (''c'', MouseMove \<lparr>lat = 4, lng = 4\<rparr>), (''f1'', Click \<lparr>lat = 4, lng = 4\<rparr>)]
          initialApp)
       = Inr (Some WouldBeEnclosed,
           run boxlib
             [(''a'', ToolButton TRectangle), (''b'', Click \<lparr>lat = 0, lng = 0\<rparr>),
              (''c'', MouseMove \<lparr>lat = 4, lng = 4\<rparr>), (''f1'', Click \<lparr>lat = 4, lng = 4\<rparr>)]
             initialApp)"
proof -
  let ?s = "run boxlib
          [(''a'', ToolButton TRectangle), (''b'', Click \<lparr>lat = 0, lng = 0\<rparr>),
           (''c'', MouseMove \<lparr>lat = 4, lng = 4\<rparr>), (''f1'', Click \<lparr>lat = 4, lng = 4\<rparr>)]
          initialApp"
  let ?g = "Polygon [[[0, 0], [4, 0], [4, 4], [0, 4], [0, 0]]]"
  let ?l = "L_Rectangle \<lparr>south = 0, west = 0, north = 4, east = 4\<rparr>"
  have r: "reachable boxlib ?s"
    by (rule reachable_run) (rule reachable_init)
  have s: "?s = initialApp\<lparr>features := [newFeature ''f1'' TRectangle ?g],
      mode := Some TRectangle, startPointRef := Some \<lparr>lat = 0, lng = 0\<rparr>\<rparr>"
    by (simp add: handler_defs boxlib_eval)
  have t: "isPolygonType TRectangle" by simp
  have g: "layerGeometry boxlib (polygonPointsRef ?s) ?l = Inr (Inr ?g)"
    by simp
  have g0: "layerGeometry boxlib [] ?l = Inr (Inr ?g)"
    by simp
  have ex: "existingPolygonGeometries (features ?s) = [?g]"
    unfolding s by (simp add: existingPolygonGeometries_def newFeature_def)
  then have e: "?g \<in> set (existingPolygonGeometries (features ?s))"
    by (simp only: list.set insert_iff simp_thms)
  have enc: "doesPolygonEnclose boxlib ?g ?g = Inr True"
    by (simp add: doesPolygonEnclose_def boxlib_eval)
  from coincident_candidate_would_be_enclosed
    [OF boxlib_polygon_wraps boxlib_difference_sound boxlib_contains_exact r t g e enc enc,
     of "''f2''"]
  have "finishDrawing boxlib ''f2'' TRectangle ?l ?s = Inr (Some WouldBeEnclosed, ?s)"
    by blast
  with boxlib_polygon_wraps boxlib_difference_sound boxlib_contains_exact r t g0 ex enc
  show ?thesis by blast
qed

end
